theory Spec2Isabelle
  imports Complex_Main
begin

section \<open>JavaScript strings\<close>

text \<open>
  A JavaScript string is modelled as a \<^typ>\<open>string\<close>: a list of code units, each below 256.
  \<open>String.prototype.trim\<close> removes white space and line terminators from both ends; among
  the code units below 256 these are U+0009 to U+000D, U+0020 and U+00A0.
\<close>

definition is_ws :: "char \<Rightarrow> bool" where
  "is_ws c = (of_char c \<in> {9, 10, 11, 12, 13, 32, 160 :: nat})"

definition trim :: "string \<Rightarrow> string" where
  "trim s = rev (dropWhile is_ws (rev (dropWhile is_ws s)))"

text \<open>
  \<open>s.split(",")\<close>: the pieces between the separators, in order; a string without a
  separator (the empty string too) gives one piece.
\<close>

fun split_on :: "char \<Rightarrow> string \<Rightarrow> string list" where
  "split_on c [] = [[]]"
| "split_on c (x # xs) =
     (if x = c then [] # split_on c xs
      else (case split_on c xs of
              [] \<Rightarrow> [[x]]
            | w # ws \<Rightarrow> (x # w) # ws))"

section \<open>JavaScript numbers\<close>

text \<open>
  A Number is an IEEE-754 double: \<open>NaN\<close>, an infinity, or a finite value, kept here as the
  rational it denotes (\<open>-0\<close> is identified with \<open>0\<close>: the code below never tells them apart).
  Arithmetic is exact rational arithmetic followed by rounding to the nearest double, ties to
  the even significand (\<open>to_double\<close>).
\<close>

datatype jsnum = NaN | PosInf | NegInf | Fin rat

text \<open>The character of a decimal digit (of the last digit, for a number beyond 9).\<close>

definition digit_char :: "int \<Rightarrow> char" where
  "digit_char d = ''0123456789'' ! nat (d mod 10)"

text \<open>The decimal digits of a natural number.\<close>

function show_digits :: "int \<Rightarrow> string" where
  "show_digits n =
     (if n < 10 then [digit_char n] else show_digits (n div 10) @ [digit_char (n mod 10)])"
  by pat_completeness auto
termination
  by (relation "measure nat") auto

declare show_digits.simps [simp del]

text \<open>The number of binary digits of a positive integer.\<close>

function bitlen :: "int \<Rightarrow> int" where
  "bitlen n = (if n \<le> 0 then 0 else 1 + bitlen (n div 2))"
  by pat_completeness auto
termination
  by (relation "measure nat") auto

declare bitlen.simps [simp del]

definition pow2 :: "int \<Rightarrow> rat" where
  "pow2 k = (if 0 \<le> k then 2 ^ nat k else 1 / 2 ^ nat (- k))"

text \<open>
  For \<open>r > 0\<close>, the exponent \<open>e\<close> with \<open>2 ^ e \<le> r < 2 ^ (e + 1)\<close>: the difference of the bit
  lengths of numerator and denominator, or one less.
\<close>

definition ilog2 :: "rat \<Rightarrow> int" where
  "ilog2 r =
     (let (a, b) = quotient_of r;
          k = bitlen a - bitlen b
      in if pow2 k \<le> r then k else k - 1)"

definition round_half_even :: "rat \<Rightarrow> int" where
  "round_half_even x =
     (let f = \<lfloor>x\<rfloor>; d = x - of_int f
      in if d < 1 / 2 then f else if 1 / 2 < d then f + 1 else if even f then f else f + 1)"

text \<open>
  Rounding to binary64: a significand of 53 bits at the exponent of \<open>r\<close> (not below the
  subnormal exponent -1022); a result that reaches \<open>2 ^ 1024\<close> is an infinity.
\<close>

definition to_double :: "rat \<Rightarrow> jsnum" where
  "to_double r =
     (if r = 0 then Fin 0
      else
        let e = max (ilog2 \<bar>r\<bar>) (- 1022);
            m = round_half_even (\<bar>r\<bar> / pow2 (e - 52))
        in if 1024 \<le> e \<or> (e = 1023 \<and> 2 ^ 53 \<le> m) then (if r < 0 then NegInf else PosInf)
           else Fin (if r < 0 then - (of_int m * pow2 (e - 52)) else of_int m * pow2 (e - 52)))"

subsection \<open>\<open>Number(val)\<close> on a string\<close>

text \<open>
  StringToNumber of ECMAScript: white space is trimmed; the empty text is 0; then a binary,
  octal or hexadecimal integer literal, or an optional sign followed by \<open>Infinity\<close> or by a
  decimal literal with optional fraction and exponent; anything else is \<open>NaN\<close>.
\<close>

definition is_digit :: "char \<Rightarrow> bool" where
  "is_digit c = (48 \<le> (of_char c :: int) \<and> (of_char c :: int) \<le> 57)"

definition digit_val :: "char \<Rightarrow> int" where
  "digit_val c = of_char c - 48"

definition digits_val :: "string \<Rightarrow> int" where
  "digits_val ds = foldl (\<lambda>a c. 10 * a + digit_val c) 0 ds"

definition pow10 :: "int \<Rightarrow> rat" where
  "pow10 k = (if 0 \<le> k then 10 ^ nat k else 1 / 10 ^ nat (- k))"

text \<open>The optional exponent part, on what follows the mantissa: \<open>None\<close> when malformed.\<close>

definition exponent_part :: "string \<Rightarrow> int option" where
  "exponent_part s =
     (case s of
        [] \<Rightarrow> Some 0
      | c # t \<Rightarrow>
          if c = CHR ''e'' \<or> c = CHR ''E'' then
            (case t of
               [] \<Rightarrow> None
             | d # u \<Rightarrow>
                 if d = CHR ''+'' then
                   (if u \<noteq> [] \<and> list_all is_digit u then Some (digits_val u) else None)
                 else if d = CHR ''-'' then
                   (if u \<noteq> [] \<and> list_all is_digit u then Some (- digits_val u) else None)
                 else (if list_all is_digit t then Some (digits_val t) else None))
          else None)"

text \<open>The mathematical value of an unsigned decimal literal: \<open>None\<close> when the text is not one.\<close>

definition unsigned_decimal :: "string \<Rightarrow> rat option" where
  "unsigned_decimal s =
     (let ip = takeWhile is_digit s; r1 = dropWhile is_digit s;
          fp = (case r1 of [] \<Rightarrow> [] | c # t \<Rightarrow> if c = CHR ''.'' then takeWhile is_digit t else []);
          r2 = (case r1 of [] \<Rightarrow> [] | c # t \<Rightarrow> if c = CHR ''.'' then dropWhile is_digit t else r1)
      in if ip = [] \<and> fp = [] then None
         else (case exponent_part r2 of
                 None \<Rightarrow> None
               | Some ex \<Rightarrow> Some (of_int (digits_val (ip @ fp)) * pow10 (ex - int (length fp)))))"

definition radix_digit :: "char \<Rightarrow> int option" where
  "radix_digit c =
     (let n = (of_char c :: int)
      in if 48 \<le> n \<and> n \<le> 57 then Some (n - 48)
         else if 97 \<le> n \<and> n \<le> 102 then Some (n - 87)
         else if 65 \<le> n \<and> n \<le> 70 then Some (n - 55)
         else None)"

definition radix_val :: "int \<Rightarrow> string \<Rightarrow> rat option" where
  "radix_val b ds =
     (if ds \<noteq> [] \<and> list_all (\<lambda>c. case radix_digit c of None \<Rightarrow> False | Some d \<Rightarrow> d < b) ds
      then Some (of_int (foldl (\<lambda>a c. b * a + the (radix_digit c)) 0 ds))
      else None)"

text \<open>\<open>None\<close>: the text has no radix prefix; \<open>Some None\<close>: it has one and is malformed.\<close>

definition non_decimal :: "string \<Rightarrow> rat option option" where
  "non_decimal s =
     (case s of
        z # p # ds \<Rightarrow>
          if z = CHR ''0'' \<and> (p = CHR ''x'' \<or> p = CHR ''X'') then Some (radix_val 16 ds)
          else if z = CHR ''0'' \<and> (p = CHR ''o'' \<or> p = CHR ''O'') then Some (radix_val 8 ds)
          else if z = CHR ''0'' \<and> (p = CHR ''b'' \<or> p = CHR ''B'') then Some (radix_val 2 ds)
          else None
      | _ \<Rightarrow> None)"

definition of_mv :: "rat option \<Rightarrow> jsnum" where
  "of_mv m = (case m of None \<Rightarrow> NaN | Some r \<Rightarrow> to_double r)"

definition neg :: "jsnum \<Rightarrow> jsnum" where
  "neg n = (case n of NaN \<Rightarrow> NaN | PosInf \<Rightarrow> NegInf | NegInf \<Rightarrow> PosInf | Fin r \<Rightarrow> Fin (- r))"

definition unsigned_literal :: "string \<Rightarrow> jsnum" where
  "unsigned_literal s = (if s = ''Infinity'' then PosInf else of_mv (unsigned_decimal s))"

definition Number :: "string \<Rightarrow> jsnum" where
  "Number val =
     (let s = trim val
      in if s = [] then Fin 0
         else (case non_decimal s of
                 Some m \<Rightarrow> of_mv m
               | None \<Rightarrow>
                   if hd s = CHR ''+'' then unsigned_literal (tl s)
                   else if hd s = CHR ''-'' then neg (unsigned_literal (tl s))
                   else unsigned_literal s))"

definition isFinite :: "jsnum \<Rightarrow> bool" where
  "isFinite n = (case n of Fin r \<Rightarrow> True | _ \<Rightarrow> False)"

definition isInteger :: "jsnum \<Rightarrow> bool" where
  "isInteger n = (case n of Fin r \<Rightarrow> r = of_int \<lfloor>r\<rfloor> | _ \<Rightarrow> False)"

subsection \<open>\<open>String(n)\<close> on an integral number\<close>

text \<open>
  Number::toString prints the shortest decimal digits that read back as the same double,
  the nearest such when there is a choice, followed by zeros below \<open>10 ^ 21\<close> and in
  exponent notation from there on. Up to \<open>2 ^ 53\<close> every integer is a double, so the
  shortest digits are the digits of the integer itself. Above, \<open>pick x p\<close> looks at the two
  multiples of the power of ten \<open>p\<close> next to \<open>x\<close>, and \<open>search\<close> tries ever more digits.
\<close>

definition pick :: "int \<Rightarrow> int \<Rightarrow> int option" where
  "pick x p =
     (let lo = (x div p) * p; hi = lo + p;
          ok = (\<lambda>v. to_double (of_int v) = Fin (of_int x))
      in if ok lo \<and> ok hi then
           Some (if x - lo < hi - x then lo
                 else if hi - x < x - lo then hi
                 else if even (lo div p) then lo else hi)
         else if ok lo then Some lo
         else if ok hi then Some hi
         else None)"

fun search :: "int \<Rightarrow> nat \<Rightarrow> nat list \<Rightarrow> int" where
  "search x D [] = x"
| "search x D (k # ks) =
     (case pick x (10 ^ (D - k)) of Some v \<Rightarrow> v | None \<Rightarrow> search x D ks)"

definition shortest_int :: "int \<Rightarrow> int" where
  "shortest_int x = (let D = length (show_digits x) in search x D [1..<D])"

definition exp_notation :: "int \<Rightarrow> string" where
  "exp_notation v =
     (let ds = show_digits v;
          sig = rev (dropWhile (\<lambda>c. c = CHR ''0'') (rev ds));
          ex = show_digits (int (length ds) - 1)
      in if length sig = 1 then sig @ ''e+'' @ ex
         else hd sig # CHR ''.'' # tl sig @ ''e+'' @ ex)"

definition string_of_pos :: "int \<Rightarrow> string" where
  "string_of_pos x =
     (if x \<le> 2 ^ 53 then show_digits x
      else let v = shortest_int x
           in if length (show_digits v) \<le> 21 then show_digits v else exp_notation v)"

definition js_String :: "int \<Rightarrow> string" where
  "js_String n = (if n < 0 then CHR ''-'' # string_of_pos (- n) else string_of_pos n)"

subsection \<open>\<open>n.toFixed(2)\<close>\<close>

text \<open>
  The integer \<open>n\<close> for which \<open>n / 100\<close> is nearest to the magnitude of \<open>x\<close> (the larger one of
  two), printed with at least three digits and a point before the last two; the sign of \<open>x\<close>
  in front. From \<open>10 ^ 21\<close> on, where every double is integral, it is \<open>String(x)\<close>.
\<close>

definition toFixed2 :: "rat \<Rightarrow> string" where
  "toFixed2 x =
     (if 10 ^ 21 \<le> \<bar>x\<bar> then js_String \<lfloor>x\<rfloor>
      else
        let n = \<lfloor>\<bar>x\<bar> * 100 + 1 / 2\<rfloor>;
            m = show_digits n;
            m' = (if length m \<le> 2 then replicate (3 - length m) CHR ''0'' @ m else m);
            k = length m'
        in (if x < 0 then ''-'' else []) @ take (k - 2) m' @ ''.'' @ drop (k - 2) m')"

section \<open>The dispatch handler: app/api/sendMessage/route.js\<close>

text \<open>
  The value that \<open>req.json()\<close> resolves to. A JSON number is the double it parses to; only
  whether it is zero matters to the handler.
\<close>

datatype json =
    JNull
  | JBool bool
  | JNum jsnum
  | JStr string
  | JArr "json list"
  | JObj "(string \<times> json) list"

text \<open>The session of next-auth: \<open>session.user?.email\<close> may be absent at each level.\<close>

record user =
  email :: "string option"

record session =
  user :: "user option"

record env =
  AUTHORIZED_USERS :: "string option"
  TELEGRAM_BOT_TOKEN :: "string option"
  TELEGRAM_CHAT_ID :: "string option"

text \<open>The one outbound call of the handler, and what the webhook may answer.\<close>

record outbound =
  url :: string
  chat_id :: "string option"
  text_field :: json

datatype fetch_result =
    FetchThrows string
  | FetchResponse bool "string option"

datatype resp_body = Error string | Success

record response =
  status :: nat
  body :: resp_body

definition session_email :: "session option \<Rightarrow> string option" where
  "session_email sess =
     (case sess of
        None \<Rightarrow> None
      | Some s \<Rightarrow> (case user s of None \<Rightarrow> None | Some u \<Rightarrow> email u))"

text \<open>
  \<open>process.env.AUTHORIZED_USERS?.split(",").map((e) => e.trim()) || []\<close>
\<close>

definition authorized_list :: "env \<Rightarrow> string list" where
  "authorized_list e =
     (case AUTHORIZED_USERS e of
        None \<Rightarrow> []
      | Some s \<Rightarrow> map trim (split_on CHR '','' s))"

text \<open>
  \<open>const { message } = await req.json()\<close>: destructuring \<open>null\<close> throws a TypeError;
  an object gives its \<open>message\<close> property (the last one when the key is repeated in the
  JSON text) or \<open>undefined\<close>; arrays and primitives have no such property.
\<close>

definition destructure_message :: "json \<Rightarrow> string + json option" where
  "destructure_message v =
     (case v of
        JNull \<Rightarrow> Inl ''Cannot destructure property 'message' of null''
      | JObj kvs \<Rightarrow> Inr (map_of (rev kvs) ''message'')
      | _ \<Rightarrow> Inr None)"

text \<open>JavaScript truthiness of the extracted value (\<open>None\<close> is \<open>undefined\<close>).\<close>

definition truthy :: "json option \<Rightarrow> bool" where
  "truthy m =
     (case m of
        None \<Rightarrow> False
      | Some JNull \<Rightarrow> False
      | Some (JBool b) \<Rightarrow> b
      | Some (JNum n) \<Rightarrow> n \<noteq> Fin 0 \<and> n \<noteq> NaN
      | Some (JStr s) \<Rightarrow> s \<noteq> []
      | Some (JArr _) \<Rightarrow> True
      | Some (JObj _) \<Rightarrow> True)"

definition telegramUrl :: "env \<Rightarrow> string" where
  "telegramUrl e =
     ''https://api.telegram.org/bot''
       @ (case TELEGRAM_BOT_TOKEN e of None \<Rightarrow> ''undefined'' | Some t \<Rightarrow> t)
       @ ''/sendMessage''"

text \<open>
  \<open>POST\<close> returns the response together with the list of calls made to the messaging
  webhook. It is given the outcome of \<open>getServerSession\<close> and the outcome of \<open>req.json()\<close>
  (\<open>Inl\<close>: the call threw), and the webhook as the function \<open>fetch\<close>. Every exception ends in
  the \<open>catch\<close> branch, status 500.
\<close>

definition POST ::
  "env \<Rightarrow> (outbound \<Rightarrow> fetch_result) \<Rightarrow> string + session option \<Rightarrow> string + json
     \<Rightarrow> outbound list \<times> response"
where
  "POST e fetch got req =
     (case got of
        Inl err \<Rightarrow> ([], \<lparr>status = 500, body = Error err\<rparr>)
      | Inr sess \<Rightarrow>
     (case session_email sess of
        None \<Rightarrow> ([], \<lparr>status = 401, body = Error ''Unauthorized - not logged in''\<rparr>)
      | Some addr \<Rightarrow>
          if addr = [] then ([], \<lparr>status = 401, body = Error ''Unauthorized - not logged in''\<rparr>)
          else if addr \<notin> set (authorized_list e)
            then ([], \<lparr>status = 403, body = Error ''Access denied''\<rparr>)
          else
            (case req of
               Inl err \<Rightarrow> ([], \<lparr>status = 500, body = Error err\<rparr>)
             | Inr v \<Rightarrow>
                 (case destructure_message v of
                    Inl err \<Rightarrow> ([], \<lparr>status = 500, body = Error err\<rparr>)
                  | Inr message \<Rightarrow>
                      if \<not> truthy message
                        then ([], \<lparr>status = 400, body = Error ''Message cannot be empty''\<rparr>)
                      else
                        let call = \<lparr>url = telegramUrl e, chat_id = TELEGRAM_CHAT_ID e,
                                    text_field = the message\<rparr>
                        in (case fetch call of
                              FetchThrows err \<Rightarrow> ([call], \<lparr>status = 500, body = Error err\<rparr>)
                            | FetchResponse ok description \<Rightarrow>
                                if \<not> ok
                                  then ([call],
                                    \<lparr>status = 500,
                                     body = Error (case description of
                                                     None \<Rightarrow> ''Failed to send message''
                                                   | Some d \<Rightarrow>
                                                       if d = [] then ''Failed to send message''
                                                       else d)\<rparr>)
                                else ([call], \<lparr>status = 200, body = Success\<rparr>))))))"

section \<open>The trade forms: app/telegram/page.js\<close>

subsection \<open>The next weekly expiry\<close>

text \<open>
  A \<open>Date\<close> is modelled by its local calendar day, counted from 1 January 1970 (a Thursday);
  the time of day is read by none of the operations used. \<open>civil_from_days\<close> gives year,
  month (1 to 12) and day of the month of the proleptic Gregorian calendar.
\<close>

type_synonym date = int

definition civil_from_days :: "date \<Rightarrow> int \<times> int \<times> int" where
  "civil_from_days t =
     (let z = t + 719468;
          era = z div 146097;
          doe = z - era * 146097;
          yoe = (doe - doe div 1460 + doe div 36524 - doe div 146096) div 365;
          doy = doe - (365 * yoe + yoe div 4 - yoe div 100);
          mp = (5 * doy + 2) div 153;
          d = doy - (153 * mp + 2) div 5 + 1;
          m = (if mp < 10 then mp + 3 else mp - 9);
          y = yoe + era * 400 + (if m \<le> 2 then 1 else 0)
      in (y, m, d))"

text \<open>\<open>getDay\<close>: 0 is Sunday, 2 is Tuesday.\<close>

definition getDay :: "date \<Rightarrow> int" where
  "getDay t = (t + 4) mod 7"

definition getDate :: "date \<Rightarrow> int" where
  "getDate t = (case civil_from_days t of (y, m, d) \<Rightarrow> d)"

text \<open>
  \<open>setDate(dt)\<close> is MakeDay(year, month, dt): the day of the first of the same month, which
  is \<open>t - (getDate t - 1)\<close>, plus \<open>dt - 1\<close>. A \<open>dt\<close> beyond the month runs into the next one.
\<close>

definition setDate :: "date \<Rightarrow> int \<Rightarrow> date" where
  "setDate t dt = t - (getDate t - 1) + (dt - 1)"

text \<open>
  \<open>(2 - day + 7) % 7 || 7\<close>. The left operand of \<open>%\<close> is positive for a day of the week,
  where the remainder of JavaScript is \<open>mod\<close>.
\<close>

definition daysUntilTue :: "int \<Rightarrow> int" where
  "daysUntilTue day = (let r = (2 - day + 7) mod 7 in if r = 0 then 7 else r)"

text \<open>
  \<open>toLocaleDateString("en-GB", { day: "2-digit", month: "short" })\<close>: the day of the month
  in two digits, a space, the abbreviated month name. The names are locale data of the
  runtime and a parameter here; \<open>en_GB_short\<close> is the table of CLDR 42.
\<close>

definition two_digit :: "int \<Rightarrow> string" where
  "two_digit d = [digit_char (d div 10), digit_char (d mod 10)]"

definition toLocaleDateString :: "(int \<Rightarrow> string) \<Rightarrow> date \<Rightarrow> string" where
  "toLocaleDateString month_short t =
     (case civil_from_days t of (y, m, d) \<Rightarrow> two_digit d @ '' '' @ month_short m)"

definition en_GB_short :: "int \<Rightarrow> string" where
  "en_GB_short m =
     [''Jan'', ''Feb'', ''Mar'', ''Apr'', ''May'', ''Jun'',
      ''Jul'', ''Aug'', ''Sept'', ''Oct'', ''Nov'', ''Dec''] ! nat ((m - 1) mod 12)"

text \<open>
  The effect that runs once when \<open>FreshTradeSection\<close> is mounted; \<open>formatted.replace(".", "")\<close>
  removes the first full stop of the text.
\<close>

definition computeExpiry :: "(int \<Rightarrow> string) \<Rightarrow> date \<Rightarrow> string" where
  "computeExpiry month_short today =
     (let day = getDay today;
          nextTuesday = setDate today (getDate today + daysUntilTue day);
          formatted = toLocaleDateString month_short nextTuesday
      in remove1 CHR ''.'' formatted)"

subsection \<open>The state of \<open>FreshTradeSection\<close>\<close>

datatype trade_action = BUY | SELL | BOTH

datatype option_side = CE | PE

datatype direction = BULLISH | BEARISH

record fresh_state =
  confirmMode :: bool
  preview :: string
  action :: trade_action
  strike :: int
  optionType :: option_side
  marketDirection :: direction
  buyOptionType :: option_side
  sellOptionType :: option_side
  buyPrice :: string
  sellPrice :: string
  expiry :: string
  buyStopLoss :: string
  sellStopLoss :: string

definition side_text :: "option_side \<Rightarrow> string" where
  "side_text t = (case t of CE \<Rightarrow> ''CE'' | PE \<Rightarrow> ''PE'')"

subsection \<open>\<open>getRangeText\<close> and \<open>buildPreviewMessage\<close>\<close>

text \<open>\<open>format\<close> is the inner function of \<open>getRangeText\<close>; \<open>None\<close> is \<open>null\<close>.\<close>

definition format :: "jsnum \<Rightarrow> string" where
  "format n =
     (case n of
        Fin r \<Rightarrow> if isInteger n then js_String \<lfloor>r\<rfloor> else toFixed2 r
      | PosInf \<Rightarrow> ''Infinity''
      | NegInf \<Rightarrow> ''-Infinity''
      | NaN \<Rightarrow> ''NaN'')"

definition getRangeText :: "string \<Rightarrow> string option" where
  "getRangeText val =
     (let low = Number val
      in if \<not> isFinite low then None
         else
           let high = (case low of Fin l \<Rightarrow> to_double (l + 5) | _ \<Rightarrow> low)
           in Some (format low @ '' - '' @ format high))"

text \<open>\<open>!range\<close>: \<open>null\<close> and the empty string are falsy.\<close>

definition falsy :: "string option \<Rightarrow> bool" where
  "falsy r = (case r of None \<Rightarrow> True | Some s \<Rightarrow> s = [])"

text \<open>
  \<open>buildPreviewMessage\<close> returns the message, or \<open>null\<close> after a toast: \<open>Inl\<close> carries the
  text of the toast.
\<close>

definition buildPreviewMessage :: "fresh_state \<Rightarrow> string + string" where
  \<open>buildPreviewMessage s =
     (case action s of
        BUY \<Rightarrow>
          let range = getRangeText (buyPrice s)
          in if falsy range then Inl ''Enter valid buy price''
             else
               let mainMsg = ''FRESH TRADE\<newline>\<newline>"BUY" '' @ expiry s @ '' "Nifty ''
                     @ js_String (strike s) @ '' '' @ side_text (optionType s)
                     @ ''" between '' @ the range;
                   stopLossMsg =
                     (if buyStopLoss s \<noteq> [] then
                        ''\<newline>\<newline>Stop loss for '' @ js_String (strike s) @ '' ''
                          @ side_text (optionType s) @ '' is '' @ buyStopLoss s
                      else [])
               in Inr (mainMsg @ stopLossMsg)
      | SELL \<Rightarrow>
          let range = getRangeText (sellPrice s)
          in if falsy range then Inl ''Enter valid sell price''
             else
               let mainMsg = ''FRESH TRADE\<newline>\<newline>"SELL" '' @ expiry s @ '' "Nifty ''
                     @ js_String (strike s) @ '' '' @ side_text (optionType s)
                     @ ''" between '' @ the range;
                   stopLossMsg =
                     (if sellStopLoss s \<noteq> [] then
                        ''\<newline>\<newline>Stop loss for '' @ js_String (strike s) @ '' ''
                          @ side_text (optionType s) @ '' is '' @ sellStopLoss s
                      else [])
               in Inr (mainMsg @ stopLossMsg)
      | BOTH \<Rightarrow>
          let buyRange = getRangeText (buyPrice s);
              sellRange = getRangeText (sellPrice s)
          in if falsy buyRange \<or> falsy sellRange then Inl ''Enter both buy and sell prices''
             else
               let mainMsg =
                     ''FRESH TRADE\<newline>\<newline>''
                     @ ''"BUY" '' @ expiry s @ '' "Nifty '' @ js_String (strike s) @ '' ''
                     @ side_text (buyOptionType s) @ ''" between '' @ the buyRange @ ''\<newline>''
                     @ ''AND\<newline>''
                     @ ''"SELL" '' @ expiry s @ '' "Nifty '' @ js_String (strike s) @ '' ''
                     @ side_text (sellOptionType s) @ ''" between '' @ the sellRange;
                   stopLossMsg =
                     (if buyStopLoss s \<noteq> [] \<and> sellStopLoss s \<noteq> [] then
                        ''\<newline>\<newline>Stop loss for '' @ js_String (strike s) @ '' ''
                          @ side_text (buyOptionType s) @ '' is '' @ buyStopLoss s
                          @ '' and '' @ js_String (strike s) @ '' ''
                          @ side_text (sellOptionType s) @ '' is '' @ sellStopLoss s
                      else if buyStopLoss s \<noteq> [] \<or> sellStopLoss s \<noteq> [] then
                        ''\<newline>\<newline>Stop loss for '' @ js_String (strike s) @ '' ''
                          @ (if buyStopLoss s \<noteq> []
                             then side_text (buyOptionType s) @ '' is '' @ buyStopLoss s
                             else side_text (sellOptionType s) @ '' is '' @ sellStopLoss s)
                      else [])
               in Inr (mainMsg @ stopLossMsg))\<close>

subsection \<open>The range in the words of the specification\<close>

text \<open>
  The specification words the band as "p - (p + 5)", each side an integer literal when it has
  no fractional part and fixed to two decimals otherwise. \<open>spec_range\<close> follows these words,
  with exact arithmetic, and is compared with \<open>getRangeText\<close> below.
\<close>

definition show_int :: "int \<Rightarrow> string" where
  "show_int i = (if i < 0 then CHR ''-'' # show_digits (- i) else show_digits i)"

definition spec_side :: "rat \<Rightarrow> string" where
  "spec_side n = (if n = of_int \<lfloor>n\<rfloor> then show_int \<lfloor>n\<rfloor> else toFixed2 n)"

definition spec_range :: "rat \<Rightarrow> string" where
  "spec_range p = spec_side p @ '' - '' @ spec_side (p + 5)"

subsection \<open>The events of \<open>FreshTradeSection\<close>\<close>

text \<open>
  The state after mounting: the \<open>useState\<close> defaults, with the expiry label set by its effect.
\<close>

definition mounted :: "string \<Rightarrow> fresh_state" where
  "mounted label =
     \<lparr>confirmMode = False, preview = [], action = BUY, strike = 24000, optionType = CE,
      marketDirection = BULLISH, buyOptionType = CE, sellOptionType = PE,
      buyPrice = [], sellPrice = [], expiry = label, buyStopLoss = [], sellStopLoss = []\<rparr>"

text \<open>The effect with dependencies \<open>[action, marketDirection]\<close>.\<close>

definition directionEffect :: "fresh_state \<Rightarrow> fresh_state" where
  "directionEffect s =
     (if action s = BOTH then
        (if marketDirection s = BULLISH
         then s\<lparr>buyOptionType := CE, sellOptionType := PE\<rparr>
         else s\<lparr>buyOptionType := PE, sellOptionType := CE\<rparr>)
      else s)"

definition resetHandler :: "fresh_state \<Rightarrow> fresh_state" where
  "resetHandler s =
     s\<lparr>action := BUY, strike := 24000, optionType := CE, marketDirection := BULLISH,
       buyOptionType := CE, sellOptionType := PE, buyPrice := [], sellPrice := [],
       buyStopLoss := [], sellStopLoss := [], preview := [], confirmMode := False\<rparr>"

definition handlePreview :: "fresh_state \<Rightarrow> fresh_state" where
  "handlePreview s =
     (case buildPreviewMessage s of
        Inl toast \<Rightarrow> s
      | Inr msg \<Rightarrow> if msg = [] then s else s\<lparr>preview := msg, confirmMode := True\<rparr>)"

text \<open>
  What the user (or the \<open>reset-forms\<close> broadcast) can do to the form. The setters of
  \<open>buyOptionType\<close> and \<open>sellOptionType\<close> are called by the effect and by the reset only.
\<close>

datatype event =
    SetAction trade_action
  | SetStrike int
  | SetOptionType option_side
  | SetMarketDirection direction
  | SetBuyPrice string
  | SetSellPrice string
  | SetBuyStopLoss string
  | SetSellStopLoss string
  | Submit
  | Confirm
  | Cancel
  | ResetForms

definition handle :: "event \<Rightarrow> fresh_state \<Rightarrow> fresh_state" where
  "handle ev s =
     (case ev of
        SetAction a \<Rightarrow> s\<lparr>action := a\<rparr>
      | SetStrike n \<Rightarrow> s\<lparr>strike := n\<rparr>
      | SetOptionType t \<Rightarrow> s\<lparr>optionType := t\<rparr>
      | SetMarketDirection d \<Rightarrow> s\<lparr>marketDirection := d\<rparr>
      | SetBuyPrice v \<Rightarrow> s\<lparr>buyPrice := v\<rparr>
      | SetSellPrice v \<Rightarrow> s\<lparr>sellPrice := v\<rparr>
      | SetBuyStopLoss v \<Rightarrow> s\<lparr>buyStopLoss := v\<rparr>
      | SetSellStopLoss v \<Rightarrow> s\<lparr>sellStopLoss := v\<rparr>
      | Submit \<Rightarrow> handlePreview s
      | Confirm \<Rightarrow> s\<lparr>confirmMode := False, preview := []\<rparr>
      | Cancel \<Rightarrow> s\<lparr>confirmMode := False\<rparr>
      | ResetForms \<Rightarrow> resetHandler s)"

text \<open>
  One event: the handler updates the state, the component renders again, and the effect runs
  when one of its dependencies has changed, before the next event is handled.
\<close>

definition step :: "fresh_state \<Rightarrow> event \<Rightarrow> fresh_state" where
  "step s ev =
     (let s' = handle ev s
      in if action s' \<noteq> action s \<or> marketDirection s' \<noteq> marketDirection s
         then directionEffect s' else s')"

definition run :: "fresh_state \<Rightarrow> event list \<Rightarrow> fresh_state" where
  "run s evs = foldl step s evs"

text \<open>
  The invariant of the form: in the BOTH mode the two legs are the pair that the market
  direction determines.
\<close>

definition directional :: "fresh_state \<Rightarrow> bool" where
  "directional s =
     (action s = BOTH \<longrightarrow>
        (buyOptionType s, sellOptionType s) =
          (if marketDirection s = BULLISH then (CE, PE) else (PE, CE)))"

subsection \<open>\<open>SquareOffSection\<close> and \<open>ExpiryTradesSection\<close>\<close>

definition squareOffTemplates :: "(string \<times> string) list" where
  "squareOffTemplates =
     [(''book100'', ''Modify stop loss and book 100% profit.''),
      (''book50'', ''Modify stop loss and book 50% profit and now keep trailing stop loss at cost for remaining 50% qty.''),
      (''trailprofit'', ''Trailing stop loss triggered. Modify stop loss and book profit for remaining 50% quantity.''),
      (''trailclose'', ''Trailing stop loss triggered. Square off position.''),
      (''stoploss'', ''Stop loss triggered. Modify your stop loss and square off position.'')]"

text \<open>
  \<open>buildMessage\<close> of \<open>SquareOffSection\<close>, with the state it reads as arguments: the template
  id \<open>action\<close> (here \<open>action'\<close>), the exit mode (\<open>None\<close> is the empty string of the initial state), the
  selected option of a single exit (\<open>None\<close>: not yet selected), and the prices as typed.
  The lookup \<open>squareOffTemplates[action]\<close> is modelled on the own properties of the table.
\<close>

definition SquareOff_buildMessage ::
  "string \<Rightarrow> trade_action option \<Rightarrow> option_side option \<Rightarrow> string \<Rightarrow> direction \<Rightarrow> int
     \<Rightarrow> string \<Rightarrow> string \<Rightarrow> string + string"
where
  "SquareOff_buildMessage action' exitMode selectedOption singleExit marketView strike'
       ceExit peExit =
     (case map_of squareOffTemplates action' of
        None \<Rightarrow> Inl ''Select valid action type.''
      | Some actionText \<Rightarrow>
          if actionText = [] then Inl ''Select valid action type.''
          else
            (case exitMode of
               None \<Rightarrow> Inr []
             | Some BUY \<Rightarrow>
                 (case selectedOption of
                    None \<Rightarrow> Inl ''Select CE or PE to exit from Buy position.''
                  | Some opt \<Rightarrow>
                      if singleExit = [] then Inl ''Enter exit price.''
                      else Inr (''SQUARE OFF\<newline>'' @ actionText @ '' Sell '' @ js_String strike'
                                @ '' '' @ side_text opt @ '' @ '' @ singleExit))
             | Some SELL \<Rightarrow>
                 (case selectedOption of
                    None \<Rightarrow> Inl ''Select CE or PE to exit from Sell position.''
                  | Some opt \<Rightarrow>
                      if singleExit = [] then Inl ''Enter exit price.''
                      else Inr (''SQUARE OFF\<newline>'' @ actionText @ '' Buy '' @ js_String strike'
                                @ '' '' @ side_text opt @ '' @ '' @ singleExit))
             | Some BOTH \<Rightarrow>
                 if ceExit = [] \<or> peExit = [] then Inl ''Enter both CE and PE exit prices.''
                 else if marketView = BULLISH then
                   Inr (''SQUARE OFF\<newline>'' @ actionText @ '' Sell '' @ js_String strike'
                        @ '' CE @ '' @ ceExit @ '' and Buy '' @ js_String strike'
                        @ '' PE @ '' @ peExit)
                 else
                   Inr (''SQUARE OFF\<newline>'' @ actionText @ '' Sell '' @ js_String strike'
                        @ '' PE @ '' @ peExit @ '' and Buy '' @ js_String strike'
                        @ '' CE @ '' @ ceExit)))"

record expiry_template =
  template_id :: string
  template_label :: string
  template_text :: string

definition expiryTemplates :: "expiry_template list" where
  "expiryTemplates =
     [\<lparr>template_id = ''book100'', template_label = ''Book 100% Profit'',
       template_text = ''Modify stop loss and book 100% profit.''\<rparr>,
      \<lparr>template_id = ''book50'',
       template_label = ''Book 50% Profit (Trailing stop loss for remaining 50%)'',
       template_text = ''Modify stop loss and book 50% profit and now keep trailing stop loss at cost for remaining 50% qty.''\<rparr>,
      \<lparr>template_id = ''trailprofit'',
       template_label = ''Trailing Stop Loss Triggered - Book Remaining Profit'',
       template_text = ''Trailing stop loss triggered. Modify stop loss and book profit for remaining 50% quantity.''\<rparr>,
      \<lparr>template_id = ''trailclose'',
       template_label = ''Trailing Stop Loss Triggered - Square Off'',
       template_text = ''Trailing stop loss triggered. Modify your stop loss and square off position.''\<rparr>,
      \<lparr>template_id = ''stoploss'', template_label = ''Stop Loss Triggered - Square Off'',
       template_text = ''Stop loss triggered. Modify your stop loss and square off position.''\<rparr>]"

text \<open>\<open>buildMessage\<close> of \<open>ExpiryTradesSection\<close>, with the state it reads as arguments.\<close>

definition ExpiryTrades_buildMessage ::
  "direction \<Rightarrow> int \<Rightarrow> string \<Rightarrow> string \<Rightarrow> string + string"
where
  "ExpiryTrades_buildMessage marketView strike' exitPrice template =
     (if exitPrice = [] then Inl ''Enter Exit Price''
      else
        (case find (\<lambda>t. template_id t = template) expiryTemplates of
           None \<Rightarrow> Inl ''Select message type''
         | Some selectedTemplate \<Rightarrow>
             let optionType' = (if marketView = BULLISH then ''PE'' else ''CE'')
             in Inr (''SQUARE OFF\<newline>'' @ template_text selectedTemplate @ '' Buy ''
                     @ js_String strike' @ '' '' @ optionType' @ '' @ '' @ exitPrice)))"

section \<open>Properties of the dispatch handler\<close>

lemma POST_unauthenticated:
  "session_email sess = None \<or> session_email sess = Some [] \<Longrightarrow>
   POST e fetch (Inr sess) req = ([], \<lparr>status = 401, body = Error ''Unauthorized - not logged in''\<rparr>)"
  by (auto simp: POST_def)

lemma POST_not_whitelisted:
  "session_email sess = Some addr \<Longrightarrow> addr \<noteq> [] \<Longrightarrow> addr \<notin> set (authorized_list e) \<Longrightarrow>
   POST e fetch (Inr sess) req = ([], \<lparr>status = 403, body = Error ''Access denied''\<rparr>)"
  by (simp add: POST_def)

lemma POST_empty_message:
  "session_email sess = Some addr \<Longrightarrow> addr \<noteq> [] \<Longrightarrow> addr \<in> set (authorized_list e) \<Longrightarrow>
   destructure_message v = Inr message \<Longrightarrow> \<not> truthy message \<Longrightarrow>
   POST e fetch (Inr sess) (Inr v) = ([], \<lparr>status = 400, body = Error ''Message cannot be empty''\<rparr>)"
  by (simp add: POST_def)

lemma POST_session_lookup_fails:
  "POST e fetch (Inl err) req = ([], \<lparr>status = 500, body = Error err\<rparr>)"
  by (simp add: POST_def)

lemma POST_unreadable_body:
  "session_email sess = Some addr \<Longrightarrow> addr \<noteq> [] \<Longrightarrow> addr \<in> set (authorized_list e) \<Longrightarrow>
   POST e fetch (Inr sess) (Inl err) = ([], \<lparr>status = 500, body = Error err\<rparr>)"
  by (simp add: POST_def)

lemma POST_null_body:
  "session_email sess = Some addr \<Longrightarrow> addr \<noteq> [] \<Longrightarrow> addr \<in> set (authorized_list e) \<Longrightarrow>
   fst (POST e fetch (Inr sess) (Inr JNull)) = []
   \<and> status (snd (POST e fetch (Inr sess) (Inr JNull))) = 500"
  by (simp add: POST_def destructure_message_def)

lemma destructure_message_total:
  "v \<noteq> JNull \<Longrightarrow> \<exists>message. destructure_message v = Inr message"
  by (cases v) (simp_all add: destructure_message_def)

lemma POST_sends:
  "session_email sess = Some addr \<Longrightarrow> addr \<noteq> [] \<Longrightarrow> addr \<in> set (authorized_list e) \<Longrightarrow>
   destructure_message v = Inr message \<Longrightarrow> truthy message \<Longrightarrow>
   fst (POST e fetch (Inr sess) (Inr v))
     = [\<lparr>url = telegramUrl e, chat_id = TELEGRAM_CHAT_ID e, text_field = the message\<rparr>]"
  by (simp add: POST_def Let_def split: fetch_result.splits)

lemma POST_forwarded:
  assumes "fst (POST e fetch got req) \<noteq> []"
  shows "\<exists>sess addr v message.
           got = Inr sess \<and>
           session_email sess = Some addr \<and> addr \<noteq> [] \<and> addr \<in> set (authorized_list e) \<and>
           req = Inr v \<and> destructure_message v = Inr (Some message) \<and> truthy (Some message) \<and>
           fst (POST e fetch got req) =
             [\<lparr>url = telegramUrl e, chat_id = TELEGRAM_CHAT_ID e, text_field = message\<rparr>]"
proof -
  from assms obtain sess where g: "got = Inr sess"
    by (cases got) (auto simp: POST_def)
  from assms g obtain addr where a: "session_email sess = Some addr"
    by (cases "session_email sess") (auto simp: POST_def)
  from assms g a have b: "addr \<noteq> []" "addr \<in> set (authorized_list e)"
    by (auto simp: POST_def split: if_splits)
  from assms g a b obtain v where c: "req = Inr v"
    by (cases req) (auto simp: POST_def)
  from assms g a b c obtain m where d: "destructure_message v = Inr m"
    by (cases "destructure_message v") (auto simp: POST_def)
  from assms g a b c d have t: "truthy m"
    by (auto simp: POST_def split: if_splits)
  then obtain message where m: "m = Some message"
    by (cases m) (auto simp: truthy_def)
  have "fst (POST e fetch got req) =
          [\<lparr>url = telegramUrl e, chat_id = TELEGRAM_CHAT_ID e, text_field = message\<rparr>]"
    using g a b c d t m
    by (simp add: POST_def Let_def split: fetch_result.splits)
  with g a b c d t m show ?thesis by blast
qed

text \<open>
  Claim C1, as amended. The handler gates every request in order. Without a session, or with
  a session that has no (or an empty) user email, the answer is status 401. Otherwise, when the
  email is not an entry of the comma-separated \<open>AUTHORIZED_USERS\<close> list, the answer is status
  403. Otherwise, when the body cannot be read as JSON or is \<open>null\<close>, the answer is status 500;
  and for every other body, when its \<open>message\<close> field is missing or empty (falsy) the answer is
  status 400, and else the message is passed to the webhook. A failing session lookup is
  answered with status 500. The webhook is called in the last case only: whenever it is called,
  the email is on the list and the message is present, so no message of a principal outside
  the list is ever forwarded.
\<close>

theorem POST_gates_in_order:
  "(session_email sess = None \<or> session_email sess = Some [] \<longrightarrow>
      POST e fetch (Inr sess) req =
        ([], \<lparr>status = 401, body = Error ''Unauthorized - not logged in''\<rparr>))
   \<and> (\<forall>addr. session_email sess = Some addr \<and> addr \<noteq> [] \<and> addr \<notin> set (authorized_list e) \<longrightarrow>
      POST e fetch (Inr sess) req = ([], \<lparr>status = 403, body = Error ''Access denied''\<rparr>))
   \<and> (\<forall>addr. session_email sess = Some addr \<and> addr \<noteq> [] \<and> addr \<in> set (authorized_list e) \<longrightarrow>
        (\<forall>err. POST e fetch (Inr sess) (Inl err) = ([], \<lparr>status = 500, body = Error err\<rparr>))
        \<and> fst (POST e fetch (Inr sess) (Inr JNull)) = []
        \<and> status (snd (POST e fetch (Inr sess) (Inr JNull))) = 500
        \<and> (\<forall>v. v \<noteq> JNull \<longrightarrow>
              (\<exists>message. destructure_message v = Inr message
                 \<and> (\<not> truthy message \<longrightarrow>
                      POST e fetch (Inr sess) (Inr v) =
                        ([], \<lparr>status = 400, body = Error ''Message cannot be empty''\<rparr>))
                 \<and> (truthy message \<longrightarrow>
                      fst (POST e fetch (Inr sess) (Inr v)) =
                        [\<lparr>url = telegramUrl e, chat_id = TELEGRAM_CHAT_ID e,
                          text_field = the message\<rparr>]))))
   \<and> (\<forall>err. POST e fetch (Inl err) req = ([], \<lparr>status = 500, body = Error err\<rparr>))
   \<and> (fst (POST e fetch got req) \<noteq> [] \<longrightarrow>
        (\<exists>s addr v message.
           got = Inr s \<and>
           session_email s = Some addr \<and> addr \<noteq> [] \<and> addr \<in> set (authorized_list e) \<and>
           req = Inr v \<and> destructure_message v = Inr (Some message) \<and> truthy (Some message) \<and>
           fst (POST e fetch got req) =
             [\<lparr>url = telegramUrl e, chat_id = TELEGRAM_CHAT_ID e, text_field = message\<rparr>]))"
proof (intro conjI allI impI)
  assume "session_email sess = None \<or> session_email sess = Some []"
  then show "POST e fetch (Inr sess) req =
        ([], \<lparr>status = 401, body = Error ''Unauthorized - not logged in''\<rparr>)"
    by (rule POST_unauthenticated)
next
  fix addr
  assume "session_email sess = Some addr \<and> addr \<noteq> [] \<and> addr \<notin> set (authorized_list e)"
  then show "POST e fetch (Inr sess) req = ([], \<lparr>status = 403, body = Error ''Access denied''\<rparr>)"
    by (intro POST_not_whitelisted [of sess addr]) simp_all
next
  fix addr err
  assume "session_email sess = Some addr \<and> addr \<noteq> [] \<and> addr \<in> set (authorized_list e)"
  then show "POST e fetch (Inr sess) (Inl err) = ([], \<lparr>status = 500, body = Error err\<rparr>)"
    by (intro POST_unreadable_body [of sess addr]) simp_all
next
  fix addr
  assume "session_email sess = Some addr \<and> addr \<noteq> [] \<and> addr \<in> set (authorized_list e)"
  then show "fst (POST e fetch (Inr sess) (Inr JNull)) = []"
    using POST_null_body [of sess addr e fetch] by simp
next
  fix addr
  assume "session_email sess = Some addr \<and> addr \<noteq> [] \<and> addr \<in> set (authorized_list e)"
  then show "status (snd (POST e fetch (Inr sess) (Inr JNull))) = 500"
    using POST_null_body [of sess addr e fetch] by simp
next
  fix addr v
  assume a: "session_email sess = Some addr \<and> addr \<noteq> [] \<and> addr \<in> set (authorized_list e)"
    and "v \<noteq> JNull"
  then obtain message where m: "destructure_message v = Inr message"
    using destructure_message_total by blast
  have "POST e fetch (Inr sess) (Inr v) =
          ([], \<lparr>status = 400, body = Error ''Message cannot be empty''\<rparr>)"
    if "\<not> truthy message"
    using a m that by (intro POST_empty_message [of sess addr]) simp_all
  moreover have "fst (POST e fetch (Inr sess) (Inr v)) =
          [\<lparr>url = telegramUrl e, chat_id = TELEGRAM_CHAT_ID e, text_field = the message\<rparr>]"
    if "truthy message"
    using a m that by (intro POST_sends [of sess addr]) simp_all
  ultimately show "\<exists>message. destructure_message v = Inr message
                 \<and> (\<not> truthy message \<longrightarrow>
                      POST e fetch (Inr sess) (Inr v) =
                        ([], \<lparr>status = 400, body = Error ''Message cannot be empty''\<rparr>))
                 \<and> (truthy message \<longrightarrow>
                      fst (POST e fetch (Inr sess) (Inr v)) =
                        [\<lparr>url = telegramUrl e, chat_id = TELEGRAM_CHAT_ID e,
                          text_field = the message\<rparr>])"
    using m by blast
next
  fix err
  show "POST e fetch (Inl err) req = ([], \<lparr>status = 500, body = Error err\<rparr>)"
    by (rule POST_session_lookup_fails)
next
  assume "fst (POST e fetch got req) \<noteq> []"
  then show "\<exists>s addr v message.
           got = Inr s \<and>
           session_email s = Some addr \<and> addr \<noteq> [] \<and> addr \<in> set (authorized_list e) \<and>
           req = Inr v \<and> destructure_message v = Inr (Some message) \<and> truthy (Some message) \<and>
           fst (POST e fetch got req) =
             [\<lparr>url = telegramUrl e, chat_id = TELEGRAM_CHAT_ID e, text_field = message\<rparr>]"
    by (rule POST_forwarded)
qed

theorem POST_gates_in_order_witness:
  "POST \<lparr>AUTHORIZED_USERS = Some ''alice@example.com, bob@example.com'',
          TELEGRAM_BOT_TOKEN = Some ''T'', TELEGRAM_CHAT_ID = Some ''7''\<rparr>
        (\<lambda>c. FetchResponse True None) (Inr None) (Inr (JObj [(''message'', JStr ''hi'')]))
     = ([], \<lparr>status = 401, body = Error ''Unauthorized - not logged in''\<rparr>)
   \<and> POST \<lparr>AUTHORIZED_USERS = Some ''alice@example.com, bob@example.com'',
          TELEGRAM_BOT_TOKEN = Some ''T'', TELEGRAM_CHAT_ID = Some ''7''\<rparr>
        (\<lambda>c. FetchResponse True None)
        (Inr (Some \<lparr>user = Some \<lparr>email = Some ''eve@example.com''\<rparr>\<rparr>))
        (Inr (JObj [(''message'', JStr ''hi'')]))
     = ([], \<lparr>status = 403, body = Error ''Access denied''\<rparr>)
   \<and> POST \<lparr>AUTHORIZED_USERS = Some ''alice@example.com, bob@example.com'',
          TELEGRAM_BOT_TOKEN = Some ''T'', TELEGRAM_CHAT_ID = Some ''7''\<rparr>
        (\<lambda>c. FetchResponse True None)
        (Inr (Some \<lparr>user = Some \<lparr>email = Some ''bob@example.com''\<rparr>\<rparr>))
        (Inr (JObj [(''message'', JStr '''')]))
     = ([], \<lparr>status = 400, body = Error ''Message cannot be empty''\<rparr>)
   \<and> POST \<lparr>AUTHORIZED_USERS = Some ''alice@example.com, bob@example.com'',
          TELEGRAM_BOT_TOKEN = Some ''T'', TELEGRAM_CHAT_ID = Some ''7''\<rparr>
        (\<lambda>c. FetchResponse True None)
        (Inr (Some \<lparr>user = Some \<lparr>email = Some ''bob@example.com''\<rparr>\<rparr>))
        (Inr (JArr []))
     = ([], \<lparr>status = 400, body = Error ''Message cannot be empty''\<rparr>)
   \<and> POST \<lparr>AUTHORIZED_USERS = Some ''alice@example.com, bob@example.com'',
          TELEGRAM_BOT_TOKEN = Some ''T'', TELEGRAM_CHAT_ID = Some ''7''\<rparr>
        (\<lambda>c. FetchResponse True None)
        (Inr (Some \<lparr>user = Some \<lparr>email = Some ''bob@example.com''\<rparr>\<rparr>))
        (Inl ''Unexpected end of JSON input'')
     = ([], \<lparr>status = 500, body = Error ''Unexpected end of JSON input''\<rparr>)
   \<and> status (snd (POST \<lparr>AUTHORIZED_USERS = Some ''alice@example.com, bob@example.com'',
          TELEGRAM_BOT_TOKEN = Some ''T'', TELEGRAM_CHAT_ID = Some ''7''\<rparr>
        (\<lambda>c. FetchResponse True None)
        (Inr (Some \<lparr>user = Some \<lparr>email = Some ''bob@example.com''\<rparr>\<rparr>))
        (Inr JNull))) = 500
   \<and> fst (POST \<lparr>AUTHORIZED_USERS = Some ''alice@example.com, bob@example.com'',
          TELEGRAM_BOT_TOKEN = Some ''T'', TELEGRAM_CHAT_ID = Some ''7''\<rparr>
        (\<lambda>c. FetchResponse True None)
        (Inr (Some \<lparr>user = Some \<lparr>email = Some ''bob@example.com''\<rparr>\<rparr>))
        (Inr (JObj [(''message'', JStr ''hi'')])))
     = [\<lparr>url = ''https://api.telegram.org/botT/sendMessage'', chat_id = Some ''7'',
         text_field = JStr ''hi''\<rparr>]"
proof -
  let ?e = "\<lparr>AUTHORIZED_USERS = Some ''alice@example.com, bob@example.com'',
          TELEGRAM_BOT_TOKEN = Some ''T'', TELEGRAM_CHAT_ID = Some ''7''\<rparr>"
  let ?f = "\<lambda>c::outbound. FetchResponse True None"
  let ?bob = "Some \<lparr>user = Some \<lparr>email = Some ''bob@example.com''\<rparr>\<rparr>"
  let ?eve = "Some \<lparr>user = Some \<lparr>email = Some ''eve@example.com''\<rparr>\<rparr>"
  let ?hi = "JObj [(''message'', JStr ''hi'')]"
  have l: "authorized_list ?e = [''alice@example.com'', ''bob@example.com'']"
    by (simp add: authorized_list_def trim_def is_ws_def)
  have s1: "session_email None = None"
    and s2: "session_email ?bob = Some ''bob@example.com''"
    and s3: "session_email ?eve = Some ''eve@example.com''"
    by (simp_all add: session_email_def)
  have d1: "destructure_message (JObj [(''message'', JStr '''')]) = Inr (Some (JStr ''''))"
    and d2: "\<not> truthy (Some (JStr ''''))"
    and d3: "destructure_message ?hi = Inr (Some (JStr ''hi''))"
    and d4: "truthy (Some (JStr ''hi''))"
    and d5: "destructure_message (JArr []) = Inr None"
    and d6: "\<not> truthy None"
    and u: "telegramUrl ?e = ''https://api.telegram.org/botT/sendMessage''"
    by (simp_all add: destructure_message_def truthy_def telegramUrl_def)
  have bob: "session_email ?bob = Some ''bob@example.com'' \<and> ''bob@example.com'' \<noteq> []
      \<and> ''bob@example.com'' \<in> set (authorized_list ?e)"
    by (simp add: s2 l)
  have eve: "session_email ?eve = Some ''eve@example.com'' \<and> ''eve@example.com'' \<noteq> []
      \<and> ''eve@example.com'' \<notin> set (authorized_list ?e)"
    by (simp add: s3 l)
  note w = POST_gates_in_order [of ?bob ?e ?f "Inr ?hi" "Inr ?bob",
      THEN conjunct2, THEN conjunct2, THEN conjunct1, THEN spec, THEN mp, OF bob]
  have c1: "POST ?e ?f (Inr None) (Inr ?hi)
      = ([], \<lparr>status = 401, body = Error ''Unauthorized - not logged in''\<rparr>)"
    using POST_gates_in_order [of None ?e ?f "Inr ?hi" "Inr None", THEN conjunct1]
    by (simp add: s1)
  have c2: "POST ?e ?f (Inr ?eve) (Inr ?hi) = ([], \<lparr>status = 403, body = Error ''Access denied''\<rparr>)"
    using POST_gates_in_order [of ?eve ?e ?f "Inr ?hi" "Inr ?eve",
      THEN conjunct2, THEN conjunct1, THEN spec, THEN mp, OF eve] .
  have c5: "POST ?e ?f (Inr ?bob) (Inl ''Unexpected end of JSON input'')
      = ([], \<lparr>status = 500, body = Error ''Unexpected end of JSON input''\<rparr>)"
    using w [THEN conjunct1, THEN spec] .
  have c6: "status (snd (POST ?e ?f (Inr ?bob) (Inr JNull))) = 500"
    using w [THEN conjunct2, THEN conjunct2, THEN conjunct1] .
  note v = w [THEN conjunct2, THEN conjunct2, THEN conjunct2, THEN spec, THEN mp]
  have c3: "POST ?e ?f (Inr ?bob) (Inr (JObj [(''message'', JStr '''')]))
      = ([], \<lparr>status = 400, body = Error ''Message cannot be empty''\<rparr>)"
    using v [of "JObj [(''message'', JStr '''')]"] d2 by (auto simp: d1)
  have c4: "POST ?e ?f (Inr ?bob) (Inr (JArr []))
      = ([], \<lparr>status = 400, body = Error ''Message cannot be empty''\<rparr>)"
    using v [of "JArr []"] d6 by (auto simp: d5)
  have c7: "fst (POST ?e ?f (Inr ?bob) (Inr ?hi))
      = [\<lparr>url = ''https://api.telegram.org/botT/sendMessage'', chat_id = Some ''7'',
         text_field = JStr ''hi''\<rparr>]"
    using v [of ?hi] d4 by (auto simp: d3 u)
  show ?thesis
    using c1 c2 c3 c4 c5 c6 c7 by (intro conjI)
qed

text \<open>
  Claim C1 as first stated answers status 400 whenever the principal is on the list and the
  body has no \<open>message\<close>. For the body \<open>null\<close>, and for a body that is not JSON, the handler
  throws before it looks at the message, and answers status 500.
\<close>

theorem POST_null_body_counterexample:
  "session_email (Some \<lparr>user = Some \<lparr>email = Some ''bob@example.com''\<rparr>\<rparr>) = Some ''bob@example.com''
   \<and> ''bob@example.com'' \<in> set (authorized_list
        \<lparr>AUTHORIZED_USERS = Some ''alice@example.com, bob@example.com'',
         TELEGRAM_BOT_TOKEN = Some ''T'', TELEGRAM_CHAT_ID = Some ''7''\<rparr>)
   \<and> status (snd (POST \<lparr>AUTHORIZED_USERS = Some ''alice@example.com, bob@example.com'',
          TELEGRAM_BOT_TOKEN = Some ''T'', TELEGRAM_CHAT_ID = Some ''7''\<rparr>
        (\<lambda>c. FetchResponse True None)
        (Inr (Some \<lparr>user = Some \<lparr>email = Some ''bob@example.com''\<rparr>\<rparr>))
        (Inr JNull))) = 500
   \<and> status (snd (POST \<lparr>AUTHORIZED_USERS = Some ''alice@example.com, bob@example.com'',
          TELEGRAM_BOT_TOKEN = Some ''T'', TELEGRAM_CHAT_ID = Some ''7''\<rparr>
        (\<lambda>c. FetchResponse True None)
        (Inr (Some \<lparr>user = Some \<lparr>email = Some ''bob@example.com''\<rparr>\<rparr>))
        (Inr JNull))) \<noteq> 400
   \<and> status (snd (POST \<lparr>AUTHORIZED_USERS = Some ''alice@example.com, bob@example.com'',
          TELEGRAM_BOT_TOKEN = Some ''T'', TELEGRAM_CHAT_ID = Some ''7''\<rparr>
        (\<lambda>c. FetchResponse True None)
        (Inr (Some \<lparr>user = Some \<lparr>email = Some ''bob@example.com''\<rparr>\<rparr>))
        (Inl ''Unexpected end of JSON input''))) = 500"
  by (simp add: POST_def session_email_def authorized_list_def trim_def is_ws_def
      destructure_message_def)

text \<open>
  Claim C9. When \<open>AUTHORIZED_USERS\<close> is absent from the environment, the list of authorized
  emails is empty, and every request of an authenticated principal (a session with a non-empty
  email) is answered with status 403 "Access denied"; nothing is forwarded.
\<close>

theorem missing_whitelist_fails_closed:
  "AUTHORIZED_USERS e = None \<Longrightarrow> session_email sess = Some addr \<Longrightarrow> addr \<noteq> [] \<Longrightarrow>
   authorized_list e = [] \<and>
   POST e fetch (Inr sess) req = ([], \<lparr>status = 403, body = Error ''Access denied''\<rparr>)"
  by (simp add: POST_def authorized_list_def)

theorem missing_whitelist_fails_closed_witness:
  "authorized_list \<lparr>AUTHORIZED_USERS = None, TELEGRAM_BOT_TOKEN = Some ''T'',
                    TELEGRAM_CHAT_ID = Some ''7''\<rparr> = [] \<and>
   POST \<lparr>AUTHORIZED_USERS = None, TELEGRAM_BOT_TOKEN = Some ''T'', TELEGRAM_CHAT_ID = Some ''7''\<rparr>
        (\<lambda>c. FetchResponse True None)
        (Inr (Some \<lparr>user = Some \<lparr>email = Some ''bob@example.com''\<rparr>\<rparr>))
        (Inr (JObj [(''message'', JStr ''hi'')]))
     = ([], \<lparr>status = 403, body = Error ''Access denied''\<rparr>)"
  using missing_whitelist_fails_closed
    [of "\<lparr>AUTHORIZED_USERS = None, TELEGRAM_BOT_TOKEN = Some ''T'', TELEGRAM_CHAT_ID = Some ''7''\<rparr>"
        "Some \<lparr>user = Some \<lparr>email = Some ''bob@example.com''\<rparr>\<rparr>" "''bob@example.com''"
        "\<lambda>c. FetchResponse True None" "Inr (JObj [(''message'', JStr ''hi'')])"]
  by (simp add: session_email_def)

section \<open>Properties of the composed messages\<close>

lemma range_160: "getRangeText ''160'' = Some ''160 - 165''"
  by code_simp

lemma js_String_24000: "js_String 24000 = ''24000''"
  by code_simp

lemma js_String_25900: "js_String 25900 = ''25900''"
  by code_simp

text \<open>
  Claim C6. A fresh BUY of strike 24000, side CE, base price "160", with the expiry label
  "11 Nov" and no stop loss, composes exactly the text \<open>FRESH TRADE\<close>, an empty line, and
  \<open>"BUY" 11 Nov "Nifty 24000 CE" between 160 - 165\<close>, with nothing appended.
\<close>

theorem fresh_buy_scenario:
  \<open>buildPreviewMessage
      (run (mounted ''11 Nov'') [SetStrike 24000, SetOptionType CE, SetBuyPrice ''160''])
   = Inr ''FRESH TRADE\<newline>\<newline>"BUY" 11 Nov "Nifty 24000 CE" between 160 - 165''\<close>
  by (simp add: buildPreviewMessage_def run_def step_def handle_def mounted_def falsy_def
      side_text_def range_160 js_String_24000)

theorem fresh_buy_scenario_witness:
  \<open>preview (handlePreview
      (run (mounted ''11 Nov'') [SetStrike 24000, SetOptionType CE, SetBuyPrice ''160'']))
   = ''FRESH TRADE\<newline>\<newline>"BUY" 11 Nov "Nifty 24000 CE" between 160 - 165''
   \<and> confirmMode (handlePreview
      (run (mounted ''11 Nov'') [SetStrike 24000, SetOptionType CE, SetBuyPrice ''160'']))\<close>
  using fresh_buy_scenario
  by (simp add: handlePreview_def)

lemma template_text_nonempty:
  "map_of squareOffTemplates a = Some phrase \<Longrightarrow> phrase \<noteq> []"
  by (auto simp: squareOffTemplates_def split: if_splits)

text \<open>
  Claim C7. Square off of both legs: with a template of the table and both exit prices
  entered, a bullish view closes with "Sell <strike> CE @ <ceExit> and Buy <strike> PE @
  <peExit>", a bearish view with "Sell <strike> PE @ <peExit> and Buy <strike> CE @ <ceExit>",
  after \<open>SQUARE OFF\<close>, a line break and the text of the template. For the bullish view,
  strike 25900, exits 120 and 125 and the template \<open>book100\<close> the message is exactly
  "SQUARE OFF", line break, "Modify stop loss and book 100% profit. Sell 25900 CE @ 120 and
  Buy 25900 PE @ 125".
\<close>

theorem squareoff_both_legs:
  "(map_of squareOffTemplates a = Some phrase \<and> ceExit \<noteq> [] \<and> peExit \<noteq> [] \<longrightarrow>
      SquareOff_buildMessage a (Some BOTH) sel single BULLISH k ceExit peExit =
        Inr (''SQUARE OFF\<newline>'' @ phrase @ '' Sell '' @ js_String k @ '' CE @ '' @ ceExit
             @ '' and Buy '' @ js_String k @ '' PE @ '' @ peExit)
      \<and> SquareOff_buildMessage a (Some BOTH) sel single BEARISH k ceExit peExit =
        Inr (''SQUARE OFF\<newline>'' @ phrase @ '' Sell '' @ js_String k @ '' PE @ '' @ peExit
             @ '' and Buy '' @ js_String k @ '' CE @ '' @ ceExit))
   \<and> SquareOff_buildMessage ''book100'' (Some BOTH) None [] BULLISH 25900 ''120'' ''125'' =
        Inr ''SQUARE OFF\<newline>Modify stop loss and book 100% profit. Sell 25900 CE @ 120 and Buy 25900 PE @ 125''"
proof -
  have "SquareOff_buildMessage ''book100'' (Some BOTH) None [] BULLISH 25900 ''120'' ''125'' =
        Inr ''SQUARE OFF\<newline>Modify stop loss and book 100% profit. Sell 25900 CE @ 120 and Buy 25900 PE @ 125''"
    by (simp add: SquareOff_buildMessage_def squareOffTemplates_def js_String_25900)
  moreover have "map_of squareOffTemplates a = Some phrase \<Longrightarrow> ceExit \<noteq> [] \<Longrightarrow> peExit \<noteq> [] \<Longrightarrow>
      SquareOff_buildMessage a (Some BOTH) sel single BULLISH k ceExit peExit =
        Inr (''SQUARE OFF\<newline>'' @ phrase @ '' Sell '' @ js_String k @ '' CE @ '' @ ceExit
             @ '' and Buy '' @ js_String k @ '' PE @ '' @ peExit)
      \<and> SquareOff_buildMessage a (Some BOTH) sel single BEARISH k ceExit peExit =
        Inr (''SQUARE OFF\<newline>'' @ phrase @ '' Sell '' @ js_String k @ '' PE @ '' @ peExit
             @ '' and Buy '' @ js_String k @ '' CE @ '' @ ceExit)"
    using template_text_nonempty [of a phrase]
    by (simp add: SquareOff_buildMessage_def)
  ultimately show ?thesis by blast
qed

theorem squareoff_both_legs_witness:
  "SquareOff_buildMessage ''stoploss'' (Some BOTH) None [] BEARISH 24000 ''80.5'' ''95'' =
     Inr ''SQUARE OFF\<newline>Stop loss triggered. Modify your stop loss and square off position. Sell 24000 PE @ 95 and Buy 24000 CE @ 80.5''"
  using squareoff_both_legs [of "''stoploss''"
      "''Stop loss triggered. Modify your stop loss and square off position.''"
      "''80.5''" "''95''" None "[]" 24000]
  by (simp add: squareOffTemplates_def js_String_24000)

lemma expiry_template_found:
  assumes "(tid, phrase) \<in>
       {(''book100'', ''Modify stop loss and book 100% profit.''),
        (''book50'', ''Modify stop loss and book 50% profit and now keep trailing stop loss at cost for remaining 50% qty.''),
        (''trailprofit'', ''Trailing stop loss triggered. Modify stop loss and book profit for remaining 50% quantity.''),
        (''trailclose'', ''Trailing stop loss triggered. Modify your stop loss and square off position.''),
        (''stoploss'', ''Stop loss triggered. Modify your stop loss and square off position.'')}"
  shows "\<exists>t. find (\<lambda>t. template_id t = tid) expiryTemplates = Some t \<and> template_text t = phrase"
  using assms
  by (simp only: insert_iff empty_iff prod.inject, elim disjE conjE FalseE)
     (simp_all add: expiryTemplates_def)

lemma expiry_template_missing:
  assumes "tid \<notin> {''book100'', ''book50'', ''trailprofit'', ''trailclose'', ''stoploss''}"
  shows "find (\<lambda>t. template_id t = tid) expiryTemplates = None"
  using assms
  by (simp add: expiryTemplates_def eq_commute [of _ tid])

text \<open>
  Claim C8. Expiry day trade: with an exit price entered and one of the five template ids,
  the message is \<open>SQUARE OFF\<close>, a line break, the text of the template, and
  "Buy <strike> <side> @ <exitPrice>", where the side is PE for a bullish and CE for a bearish
  market view and depends on nothing else. Without an exit price, or with any other template
  id, no message is composed and a validation error is shown.
\<close>

theorem expiry_single_message:
  "(exitPrice \<noteq> [] \<and>
    (tid, phrase) \<in>
       {(''book100'', ''Modify stop loss and book 100% profit.''),
        (''book50'', ''Modify stop loss and book 50% profit and now keep trailing stop loss at cost for remaining 50% qty.''),
        (''trailprofit'', ''Trailing stop loss triggered. Modify stop loss and book profit for remaining 50% quantity.''),
        (''trailclose'', ''Trailing stop loss triggered. Modify your stop loss and square off position.''),
        (''stoploss'', ''Stop loss triggered. Modify your stop loss and square off position.'')}
    \<longrightarrow>
      ExpiryTrades_buildMessage marketView k exitPrice tid =
        Inr (''SQUARE OFF\<newline>'' @ phrase @ '' Buy '' @ js_String k @ '' ''
             @ (case marketView of BULLISH \<Rightarrow> ''PE'' | BEARISH \<Rightarrow> ''CE'')
             @ '' @ '' @ exitPrice))
   \<and> (exitPrice = [] \<longrightarrow>
        ExpiryTrades_buildMessage marketView k exitPrice tid = Inl ''Enter Exit Price'')
   \<and> (exitPrice \<noteq> [] \<and>
      tid \<notin> {''book100'', ''book50'', ''trailprofit'', ''trailclose'', ''stoploss''} \<longrightarrow>
        ExpiryTrades_buildMessage marketView k exitPrice tid = Inl ''Select message type'')"
proof (intro conjI impI)
  assume h: "exitPrice \<noteq> [] \<and>
    (tid, phrase) \<in>
       {(''book100'', ''Modify stop loss and book 100% profit.''),
        (''book50'', ''Modify stop loss and book 50% profit and now keep trailing stop loss at cost for remaining 50% qty.''),
        (''trailprofit'', ''Trailing stop loss triggered. Modify stop loss and book profit for remaining 50% quantity.''),
        (''trailclose'', ''Trailing stop loss triggered. Modify your stop loss and square off position.''),
        (''stoploss'', ''Stop loss triggered. Modify your stop loss and square off position.'')}"
  then obtain t where t: "find (\<lambda>t. template_id t = tid) expiryTemplates = Some t"
      "template_text t = phrase"
    using expiry_template_found [of tid phrase] by auto
  from h have "exitPrice \<noteq> []" by simp
  then show "ExpiryTrades_buildMessage marketView k exitPrice tid =
        Inr (''SQUARE OFF\<newline>'' @ phrase @ '' Buy '' @ js_String k @ '' ''
             @ (case marketView of BULLISH \<Rightarrow> ''PE'' | BEARISH \<Rightarrow> ''CE'')
             @ '' @ '' @ exitPrice)"
    using t by (cases marketView) (simp_all add: ExpiryTrades_buildMessage_def)
next
  assume "exitPrice = []"
  then show "ExpiryTrades_buildMessage marketView k exitPrice tid = Inl ''Enter Exit Price''"
    by (simp add: ExpiryTrades_buildMessage_def)
next
  assume "exitPrice \<noteq> [] \<and>
      tid \<notin> {''book100'', ''book50'', ''trailprofit'', ''trailclose'', ''stoploss''}"
  then show "ExpiryTrades_buildMessage marketView k exitPrice tid = Inl ''Select message type''"
    using expiry_template_missing [of tid]
    by (simp add: ExpiryTrades_buildMessage_def)
qed

theorem expiry_single_message_witness:
  "ExpiryTrades_buildMessage BULLISH 25900 ''120'' ''book100'' =
     Inr ''SQUARE OFF\<newline>Modify stop loss and book 100% profit. Buy 25900 PE @ 120''
   \<and> ExpiryTrades_buildMessage BEARISH 25900 ''120'' ''trailclose'' =
     Inr ''SQUARE OFF\<newline>Trailing stop loss triggered. Modify your stop loss and square off position. Buy 25900 CE @ 120''
   \<and> ExpiryTrades_buildMessage BULLISH 25900 [] ''book100'' = Inl ''Enter Exit Price''
   \<and> ExpiryTrades_buildMessage BULLISH 25900 ''120'' ''book75'' = Inl ''Select message type''"
  using expiry_single_message [of "''120''" "''book100''"
      "''Modify stop loss and book 100% profit.''" BULLISH 25900]
    expiry_single_message [of "''120''" "''trailclose''"
      "''Trailing stop loss triggered. Modify your stop loss and square off position.''"
      BEARISH 25900]
    expiry_single_message [of "[]" "''book100''" "[]" BULLISH 25900]
    expiry_single_message [of "''120''" "''book75''" "[]" BULLISH 25900]
  by (simp add: js_String_25900)

text \<open>
  Claim C10. The stop loss of a fresh trade is never validated. Whenever the trade composes
  without stop losses, it composes with them too, and the message is the same text followed
  by the stop-loss line: for BUY and SELL, "Stop loss for <strike> <side> is <stopLoss>" with
  the field as typed, whatever it contains, and nothing when the field is empty; for BOTH,
  one clause naming both sides when both fields are filled, the clause of the one that is
  filled otherwise, and nothing when both are empty.
\<close>

theorem stop_loss_verbatim:
  assumes "buildPreviewMessage (s\<lparr>buyStopLoss := [], sellStopLoss := []\<rparr>) = Inr main"
  shows "(action s = BUY \<longrightarrow>
            buildPreviewMessage s =
              Inr (main @ (if buyStopLoss s = [] then []
                           else ''\<newline>\<newline>Stop loss for '' @ js_String (strike s) @ '' ''
                                @ side_text (optionType s) @ '' is '' @ buyStopLoss s)))
       \<and> (action s = SELL \<longrightarrow>
            buildPreviewMessage s =
              Inr (main @ (if sellStopLoss s = [] then []
                           else ''\<newline>\<newline>Stop loss for '' @ js_String (strike s) @ '' ''
                                @ side_text (optionType s) @ '' is '' @ sellStopLoss s)))
       \<and> (action s = BOTH \<longrightarrow>
            buildPreviewMessage s =
              Inr (main @
                (if buyStopLoss s \<noteq> [] \<and> sellStopLoss s \<noteq> [] then
                   ''\<newline>\<newline>Stop loss for '' @ js_String (strike s) @ '' ''
                     @ side_text (buyOptionType s) @ '' is '' @ buyStopLoss s
                     @ '' and '' @ js_String (strike s) @ '' ''
                     @ side_text (sellOptionType s) @ '' is '' @ sellStopLoss s
                 else if buyStopLoss s \<noteq> [] then
                   ''\<newline>\<newline>Stop loss for '' @ js_String (strike s) @ '' ''
                     @ side_text (buyOptionType s) @ '' is '' @ buyStopLoss s
                 else if sellStopLoss s \<noteq> [] then
                   ''\<newline>\<newline>Stop loss for '' @ js_String (strike s) @ '' ''
                     @ side_text (sellOptionType s) @ '' is '' @ sellStopLoss s
                 else [])))"
  using assms
  by (cases "action s")
     (auto simp: buildPreviewMessage_def Let_def split: if_splits)

theorem stop_loss_verbatim_witness:
  \<open>buildPreviewMessage
      (run (mounted ''11 Nov'') [SetBuyPrice ''160'', SetBuyStopLoss ''12o''])
   = Inr (''FRESH TRADE\<newline>\<newline>"BUY" 11 Nov "Nifty 24000 CE" between 160 - 165''
          @ ''\<newline>\<newline>Stop loss for 24000 CE is 12o'')
   \<and> buildPreviewMessage
      (run (mounted ''11 Nov'') [SetAction SELL, SetSellPrice ''160'', SetBuyStopLoss ''120''])
   = Inr ''FRESH TRADE\<newline>\<newline>"SELL" 11 Nov "Nifty 24000 CE" between 160 - 165''
   \<and> buildPreviewMessage
      (run (mounted ''11 Nov'')
         [SetAction BOTH, SetBuyPrice ''160'', SetSellPrice ''160'', SetSellStopLoss ''x1''])
   = Inr (''FRESH TRADE\<newline>\<newline>"BUY" 11 Nov "Nifty 24000 CE" between 160 - 165\<newline>AND\<newline>''
          @ ''"SELL" 11 Nov "Nifty 24000 PE" between 160 - 165''
          @ ''\<newline>\<newline>Stop loss for 24000 PE is x1'')\<close>
proof -
  let ?b = "run (mounted ''11 Nov'') [SetBuyPrice ''160'', SetBuyStopLoss ''12o'']"
  let ?s = "run (mounted ''11 Nov'') [SetAction SELL, SetSellPrice ''160'', SetBuyStopLoss ''120'']"
  let ?d = "run (mounted ''11 Nov'')
              [SetAction BOTH, SetBuyPrice ''160'', SetSellPrice ''160'', SetSellStopLoss ''x1'']"
  note ev = buildPreviewMessage_def run_def step_def handle_def mounted_def falsy_def
    side_text_def directionEffect_def range_160 js_String_24000
  have hb: \<open>buildPreviewMessage (?b\<lparr>buyStopLoss := [], sellStopLoss := []\<rparr>)
      = Inr ''FRESH TRADE\<newline>\<newline>"BUY" 11 Nov "Nifty 24000 CE" between 160 - 165''\<close>
    by (simp add: ev)
  have hs: \<open>buildPreviewMessage (?s\<lparr>buyStopLoss := [], sellStopLoss := []\<rparr>)
      = Inr ''FRESH TRADE\<newline>\<newline>"SELL" 11 Nov "Nifty 24000 CE" between 160 - 165''\<close>
    by (simp add: ev)
  have hd: \<open>buildPreviewMessage (?d\<lparr>buyStopLoss := [], sellStopLoss := []\<rparr>)
      = Inr (''FRESH TRADE\<newline>\<newline>"BUY" 11 Nov "Nifty 24000 CE" between 160 - 165\<newline>AND\<newline>''
             @ ''"SELL" 11 Nov "Nifty 24000 PE" between 160 - 165'')\<close>
    by (simp add: ev)
  show ?thesis
    using stop_loss_verbatim [OF hb] stop_loss_verbatim [OF hs] stop_loss_verbatim [OF hd]
    by (simp add: run_def step_def handle_def mounted_def side_text_def directionEffect_def
        js_String_24000)
qed

section \<open>The direction of the two legs\<close>

lemma directional_mounted: "directional (mounted label)"
  by (simp add: directional_def mounted_def)

lemma directional_handlePreview: "directional s \<Longrightarrow> directional (handlePreview s)"
  by (auto simp: handlePreview_def directional_def split: sum.splits)

lemma directional_directionEffect: "directional (directionEffect s)"
  by (simp add: directionEffect_def directional_def)

lemma directional_step:
  assumes "directional s"
  shows "directional (step s ev)"
proof (cases "action (handle ev s) \<noteq> action s \<or> marketDirection (handle ev s) \<noteq> marketDirection s")
  case True
  then show ?thesis
    by (simp add: step_def Let_def directional_directionEffect)
next
  case False
  then have same: "action (handle ev s) = action s"
      "marketDirection (handle ev s) = marketDirection s"
    by simp_all
  have "directional (handle ev s)"
  proof (cases ev)
    case Submit
    then show ?thesis
      using assms by (simp add: handle_def directional_handlePreview)
  next
    case ResetForms
    then show ?thesis
      by (simp add: handle_def resetHandler_def directional_def)
  qed (use assms same in \<open>simp_all add: handle_def directional_def\<close>)
  with False show ?thesis
    by (simp add: step_def Let_def)
qed

lemma directional_run: "directional s \<Longrightarrow> directional (run s evs)"
  unfolding run_def
  by (induction evs arbitrary: s) (simp_all add: directional_step)

lemma both_message_shape:
  assumes "action s = BOTH" and "buildPreviewMessage s = Inr msg"
  shows \<open>\<exists>stopLossMsg.
           msg = ''FRESH TRADE\<newline>\<newline>"BUY" '' @ expiry s @ '' "Nifty '' @ js_String (strike s)
                 @ '' '' @ side_text (buyOptionType s) @ ''" between ''
                 @ the (getRangeText (buyPrice s))
                 @ ''\<newline>AND\<newline>"SELL" '' @ expiry s @ '' "Nifty '' @ js_String (strike s)
                 @ '' '' @ side_text (sellOptionType s) @ ''" between ''
                 @ the (getRangeText (sellPrice s)) @ stopLossMsg\<close>
  using assms
  by (auto simp: buildPreviewMessage_def Let_def split: if_splits)

text \<open>
  Claim C5. After any sequence of events on the mounted form, whenever the action is BOTH the
  two legs are the pair determined by the market direction: buy CE and sell PE when bullish,
  buy PE and sell CE when bearish, whatever sides were selected before; the two legs are never
  equal; and the message composed in that state names exactly these sides.
\<close>

theorem both_legs_follow_direction:
  \<open>let s = run (mounted label) evs
   in action s = BOTH \<longrightarrow>
        (marketDirection s = BULLISH \<longrightarrow> buyOptionType s = CE \<and> sellOptionType s = PE)
      \<and> (marketDirection s = BEARISH \<longrightarrow> buyOptionType s = PE \<and> sellOptionType s = CE)
      \<and> buyOptionType s \<noteq> sellOptionType s
      \<and> (\<forall>msg. buildPreviewMessage s = Inr msg \<longrightarrow>
            (\<exists>stopLossMsg.
               msg = ''FRESH TRADE\<newline>\<newline>"BUY" '' @ expiry s @ '' "Nifty '' @ js_String (strike s)
                     @ '' '' @ (if marketDirection s = BULLISH then ''CE'' else ''PE'')
                     @ ''" between '' @ the (getRangeText (buyPrice s))
                     @ ''\<newline>AND\<newline>"SELL" '' @ expiry s @ '' "Nifty '' @ js_String (strike s)
                     @ '' '' @ (if marketDirection s = BULLISH then ''PE'' else ''CE'')
                     @ ''" between '' @ the (getRangeText (sellPrice s)) @ stopLossMsg))\<close>
proof -
  define s where "s = run (mounted label) evs"
  have d: "directional s"
    unfolding s_def by (rule directional_run) (rule directional_mounted)
  have "action s = BOTH \<longrightarrow>
        (marketDirection s = BULLISH \<longrightarrow> buyOptionType s = CE \<and> sellOptionType s = PE)
      \<and> (marketDirection s = BEARISH \<longrightarrow> buyOptionType s = PE \<and> sellOptionType s = CE)
      \<and> buyOptionType s \<noteq> sellOptionType s"
    using d by (cases "marketDirection s") (simp_all add: directional_def)
  moreover have \<open>action s = BOTH \<longrightarrow>
     (\<forall>msg. buildPreviewMessage s = Inr msg \<longrightarrow>
            (\<exists>stopLossMsg.
               msg = ''FRESH TRADE\<newline>\<newline>"BUY" '' @ expiry s @ '' "Nifty '' @ js_String (strike s)
                     @ '' '' @ (if marketDirection s = BULLISH then ''CE'' else ''PE'')
                     @ ''" between '' @ the (getRangeText (buyPrice s))
                     @ ''\<newline>AND\<newline>"SELL" '' @ expiry s @ '' "Nifty '' @ js_String (strike s)
                     @ '' '' @ (if marketDirection s = BULLISH then ''PE'' else ''CE'')
                     @ ''" between '' @ the (getRangeText (sellPrice s)) @ stopLossMsg))\<close>
  proof (intro impI allI)
    fix msg
    assume a: "action s = BOTH" and b: "buildPreviewMessage s = Inr msg"
    from d a have "side_text (buyOptionType s) = (if marketDirection s = BULLISH then ''CE'' else ''PE'')"
      "side_text (sellOptionType s) = (if marketDirection s = BULLISH then ''PE'' else ''CE'')"
      by (simp_all add: directional_def side_text_def split: if_splits)
    with both_message_shape [OF a b]
    show \<open>\<exists>stopLossMsg.
               msg = ''FRESH TRADE\<newline>\<newline>"BUY" '' @ expiry s @ '' "Nifty '' @ js_String (strike s)
                     @ '' '' @ (if marketDirection s = BULLISH then ''CE'' else ''PE'')
                     @ ''" between '' @ the (getRangeText (buyPrice s))
                     @ ''\<newline>AND\<newline>"SELL" '' @ expiry s @ '' "Nifty '' @ js_String (strike s)
                     @ '' '' @ (if marketDirection s = BULLISH then ''PE'' else ''CE'')
                     @ ''" between '' @ the (getRangeText (sellPrice s)) @ stopLossMsg\<close>
      by simp
  qed
  ultimately show ?thesis
    unfolding Let_def s_def [symmetric] by blast
qed

lemma range_150: "getRangeText ''150'' = Some ''150 - 155''"
  by code_simp

theorem both_legs_follow_direction_witness:
  \<open>(let s = run (mounted ''11 Nov'')
             [SetOptionType PE, SetAction BOTH, SetMarketDirection BEARISH, SetOptionType CE,
              SetBuyPrice ''160'', SetSellPrice ''150'']
    in action s = BOTH \<and> marketDirection s = BEARISH
      \<and> buyOptionType s = PE \<and> sellOptionType s = CE \<and> buyOptionType s \<noteq> sellOptionType s
      \<and> buildPreviewMessage s =
          Inr (''FRESH TRADE\<newline>\<newline>"BUY" 11 Nov "Nifty 24000 PE" between 160 - 165\<newline>AND\<newline>''
               @ ''"SELL" 11 Nov "Nifty 24000 CE" between 150 - 155''))
   \<and> (let s = run (mounted ''11 Nov'') [SetOptionType PE, SetAction BOTH]
      in action s = BOTH \<and> marketDirection s = BULLISH
        \<and> buyOptionType s = CE \<and> sellOptionType s = PE)\<close>
proof -
  let ?evs = "[SetOptionType PE, SetAction BOTH, SetMarketDirection BEARISH, SetOptionType CE,
              SetBuyPrice ''160'', SetSellPrice ''150'']"
  let ?s = "run (mounted ''11 Nov'') ?evs"
  let ?t = "run (mounted ''11 Nov'') [SetOptionType PE, SetAction BOTH]"
  note ev = run_def step_def handle_def mounted_def directionEffect_def
  have a: "action ?s = BOTH" "marketDirection ?s = BEARISH"
    by (simp_all add: ev)
  have b: "action ?t = BOTH" "marketDirection ?t = BULLISH"
    by (simp_all add: ev)
  have m: \<open>buildPreviewMessage ?s =
      Inr (''FRESH TRADE\<newline>\<newline>"BUY" 11 Nov "Nifty 24000 PE" between 160 - 165\<newline>AND\<newline>''
            @ ''"SELL" 11 Nov "Nifty 24000 CE" between 150 - 155'')\<close>
    by (simp add: ev buildPreviewMessage_def falsy_def side_text_def range_160 range_150
        js_String_24000)
  have c: "action ?s = BOTH \<longrightarrow>
      (marketDirection ?s = BULLISH \<longrightarrow> buyOptionType ?s = CE \<and> sellOptionType ?s = PE)
      \<and> (marketDirection ?s = BEARISH \<longrightarrow> buyOptionType ?s = PE \<and> sellOptionType ?s = CE)
      \<and> buyOptionType ?s \<noteq> sellOptionType ?s"
    using both_legs_follow_direction [of "''11 Nov''" ?evs]
    unfolding Let_def by (elim impCE conjE) simp_all
  have d: "action ?t = BOTH \<longrightarrow>
      (marketDirection ?t = BULLISH \<longrightarrow> buyOptionType ?t = CE \<and> sellOptionType ?t = PE)"
    using both_legs_follow_direction [of "''11 Nov''" "[SetOptionType PE, SetAction BOTH]"]
    unfolding Let_def by (elim impCE conjE) simp_all
  show ?thesis
    unfolding Let_def using a b c d m by simp
qed

section \<open>The expiry label\<close>

lemma digit_char_cases:
  "digit_char n \<in> set ''0123456789''"
proof -
  have "nat (n mod 10) < 10" by simp
  then show ?thesis
    unfolding digit_char_def by (intro nth_mem) simp
qed

lemma digit_char_not_dot: "digit_char n \<noteq> CHR ''.''"
  using digit_char_cases [of n] by auto

lemma two_digit_no_dot: "CHR ''.'' \<notin> set (two_digit d @ '' '')"
  using digit_char_not_dot [of "d div 10"] digit_char_not_dot [of "d mod 10"]
  by (simp add: two_digit_def)

lemma setDate_add: "setDate t (getDate t + k) = t + k"
  by (simp add: setDate_def)

lemma getDay_add: "getDay (t + j) = (getDay t + j) mod 7"
  by (simp add: getDay_def mod_simps ac_simps)

lemma getDay_range: "0 \<le> getDay t \<and> getDay t < 7"
  by (simp add: getDay_def)

lemma daysUntilTue_cases:
  assumes "0 \<le> r" "r < 7"
  shows "(r + daysUntilTue r) mod 7 = 2
     \<and> 1 \<le> daysUntilTue r \<and> daysUntilTue r \<le> 7
     \<and> (r = 2 \<longrightarrow> daysUntilTue r = 7)
     \<and> (r \<noteq> 2 \<longrightarrow> daysUntilTue r \<le> 6)
     \<and> (\<forall>j. 0 < j \<and> j < daysUntilTue r \<longrightarrow> (r + j) mod 7 \<noteq> 2)"
proof -
  from assms have "r = 0 \<or> r = 1 \<or> r = 2 \<or> r = 3 \<or> r = 4 \<or> r = 5 \<or> r = 6"
    by arith
  then show ?thesis
  proof (elim disjE)
    assume "r = 0" then show ?thesis by (simp add: daysUntilTue_def; presburger)
  next
    assume "r = 1" then show ?thesis by (simp add: daysUntilTue_def; presburger)
  next
    assume "r = 2" then show ?thesis by (simp add: daysUntilTue_def; presburger)
  next
    assume "r = 3" then show ?thesis by (simp add: daysUntilTue_def; presburger)
  next
    assume "r = 4" then show ?thesis by (simp add: daysUntilTue_def; presburger)
  next
    assume "r = 5" then show ?thesis by (simp add: daysUntilTue_def; presburger)
  next
    assume "r = 6" then show ?thesis by (simp add: daysUntilTue_def; presburger)
  qed
qed

lemma daysUntilTue_facts:
  "getDay (today + daysUntilTue (getDay today)) = 2
   \<and> 1 \<le> daysUntilTue (getDay today) \<and> daysUntilTue (getDay today) \<le> 7
   \<and> (getDay today = 2 \<longrightarrow> daysUntilTue (getDay today) = 7)
   \<and> (getDay today \<noteq> 2 \<longrightarrow> daysUntilTue (getDay today) \<le> 6)
   \<and> (\<forall>j. 0 < j \<and> j < daysUntilTue (getDay today) \<longrightarrow> getDay (today + j) \<noteq> 2)"
  using daysUntilTue_cases [of "getDay today"] getDay_range [of today]
  by (simp add: getDay_add)


lemma computeExpiry_eq:
  "civil_from_days (today + daysUntilTue (getDay today)) = (y, m, d) \<Longrightarrow>
   computeExpiry month_short today = two_digit d @ '' '' @ remove1 CHR ''.'' (month_short m)"
  using two_digit_no_dot [of d]
  by (simp add: computeExpiry_def Let_def setDate_add toLocaleDateString_def remove1_append
      del: append.simps)

text \<open>
  Claim C2. For every date \<open>today\<close>, the expiry is the day \<open>today + k\<close> with \<open>k\<close> between 1 and
  7: it falls on a Tuesday, strictly after \<open>today\<close>; \<open>k\<close> is 7 when \<open>today\<close> is a Tuesday and at
  most 6 otherwise, and no day in between is a Tuesday. The label is the day of the month in
  two digits, a space, and the abbreviated month name without its full stop: with a name that
  ends in its only full stop the stop is stripped, and a name without one is left as it is.
\<close>

theorem next_expiry_following_tuesday:
  assumes "civil_from_days (setDate today (getDate today + daysUntilTue (getDay today)))
             = (y, m, d)"
  shows "let k = daysUntilTue (getDay today);
             nextTuesday = setDate today (getDate today + k)
         in nextTuesday = today + k \<and> getDay nextTuesday = 2
            \<and> 1 \<le> k \<and> k \<le> 7 \<and> today < nextTuesday
            \<and> (getDay today = 2 \<longrightarrow> k = 7)
            \<and> (getDay today \<noteq> 2 \<longrightarrow> k \<le> 6)
            \<and> (\<forall>j. 0 < j \<and> j < k \<longrightarrow> getDay (today + j) \<noteq> 2)
            \<and> computeExpiry month_short today
                 = two_digit d @ '' '' @ remove1 CHR ''.'' (month_short m)
            \<and> length (two_digit d) = 2
            \<and> (month_short m = w @ ''.'' \<and> CHR ''.'' \<notin> set w \<longrightarrow>
                  computeExpiry month_short today = two_digit d @ '' '' @ w)
            \<and> (CHR ''.'' \<notin> set (month_short m) \<longrightarrow>
                  computeExpiry month_short today = two_digit d @ '' '' @ month_short m)"
proof -
  define k where "k = daysUntilTue (getDay today)"
  from assms have c: "civil_from_days (today + k) = (y, m, d)"
    by (simp add: setDate_add k_def)
  have e: "computeExpiry month_short today = two_digit d @ '' '' @ remove1 CHR ''.'' (month_short m)"
    using c computeExpiry_eq [of today y m d month_short] by (simp add: k_def)
  have l: "length (two_digit d) = 2"
    by (simp add: two_digit_def)
  have w: "month_short m = w @ ''.'' \<and> CHR ''.'' \<notin> set w \<longrightarrow>
             computeExpiry month_short today = two_digit d @ '' '' @ w"
    by (simp add: e remove1_append)
  have n: "CHR ''.'' \<notin> set (month_short m) \<longrightarrow>
             computeExpiry month_short today = two_digit d @ '' '' @ month_short m"
    by (simp add: e remove1_idem)
  have f: "getDay (today + k) = 2 \<and> 1 \<le> k \<and> k \<le> 7 \<and> (getDay today = 2 \<longrightarrow> k = 7)
      \<and> (getDay today \<noteq> 2 \<longrightarrow> k \<le> 6)
      \<and> (\<forall>j. 0 < j \<and> j < k \<longrightarrow> getDay (today + j) \<noteq> 2)"
    unfolding k_def by (rule daysUntilTue_facts)
  then have lt: "today < today + k"
    by simp
  show ?thesis
    unfolding Let_def k_def [symmetric] setDate_add
    by (intro conjI) (rule refl e l w n lt | use f in simp)+
qed

lemma civil_20403: "civil_from_days 20403 = (2025, 11, 11)"
  by code_simp

theorem next_expiry_following_tuesday_witness:
  "getDay 20396 = 2 \<and> daysUntilTue (getDay 20396) = 7 \<and> getDay (20396 + 7) = 2
   \<and> computeExpiry en_GB_short 20396 = ''11 Nov''
   \<and> getDay 20398 = 4 \<and> daysUntilTue (getDay 20398) = 5 \<and> getDay (20398 + 5) = 2
   \<and> getDay (20398 + 1) \<noteq> 2 \<and> getDay (20398 + 2) \<noteq> 2
   \<and> getDay (20398 + 3) \<noteq> 2 \<and> getDay (20398 + 4) \<noteq> 2
   \<and> computeExpiry (\<lambda>m. ''nov.'') 20398 = ''11 nov''"
proof -
  have g: "getDay 20396 = 2" "getDay 20398 = 4"
    by (simp_all add: getDay_def)
  have k: "daysUntilTue 2 = 7" "daysUntilTue 4 = 5"
    by (simp_all add: daysUntilTue_def)
  have m: "en_GB_short 11 = ''Nov''"
    by (simp add: en_GB_short_def)
  have t: "two_digit 11 = ''11''"
    by (simp add: two_digit_def digit_char_def)
  have c: "civil_from_days (setDate 20396 (getDate 20396 + daysUntilTue (getDay 20396)))
             = (2025, 11, 11)"
    "civil_from_days (setDate 20398 (getDate 20398 + daysUntilTue (getDay 20398)))
             = (2025, 11, 11)"
    by (simp_all add: setDate_add g k civil_20403)
  have j: "\<forall>j. 0 < j \<and> j < 5 \<longrightarrow> getDay (20398 + j) \<noteq> 2"
    using next_expiry_following_tuesday [OF c(2), of "\<lambda>m. ''nov.''" "''nov''"]
    by (simp add: g k Let_def)
  have n: "getDay (20398 + 1) \<noteq> 2" "getDay (20398 + 2) \<noteq> 2"
    "getDay (20398 + 3) \<noteq> 2" "getDay (20398 + 4) \<noteq> 2"
    using j [THEN spec, of 1] j [THEN spec, of 2] j [THEN spec, of 3] j [THEN spec, of 4]
    by simp_all
  show ?thesis
    using next_expiry_following_tuesday [OF c(1), of en_GB_short "[]"]
      next_expiry_following_tuesday [OF c(2), of "\<lambda>m. ''nov.''" "''nov''"] n
    by (simp add: g k m t setDate_add Let_def)
qed

section \<open>The price band\<close>

subsection \<open>Rounding is exact on the integers up to \<open>2 ^ 53\<close>\<close>

lemma bitlen_nonneg: "0 \<le> bitlen a"
  by (induction a rule: bitlen.induct) (subst bitlen.simps, simp)

lemma bitlen_pos: "0 < a \<Longrightarrow> 1 \<le> bitlen a"
  using bitlen_nonneg [of "a div 2"] by (subst bitlen.simps) simp

lemma bitlen_bounds:
  "0 < a \<Longrightarrow> 2 ^ nat (bitlen a - 1) \<le> a \<and> a < 2 ^ nat (bitlen a)"
proof (induction a rule: bitlen.induct)
  case (1 n)
  show ?case
  proof (cases "n = 1")
    case True
    then show ?thesis
      by (subst bitlen.simps, subst (2) bitlen.simps)
         (simp add: bitlen.simps [of 0])
  next
    case False
    with "1.prems" have h: "0 < n div 2" by simp
    with "1.IH" "1.prems" have ih: "2 ^ nat (bitlen (n div 2) - 1) \<le> n div 2"
        "n div 2 < 2 ^ nat (bitlen (n div 2))"
      by simp_all
    have b: "bitlen n = 1 + bitlen (n div 2)"
      using "1.prems" by (subst bitlen.simps) simp
    have p: "1 \<le> bitlen (n div 2)"
      using h by (rule bitlen_pos)
    then have q: "nat (bitlen (n div 2)) = Suc (nat (bitlen (n div 2) - 1))"
      by simp
    have "2 * 2 ^ nat (bitlen (n div 2) - 1) \<le> n"
      using ih(1) by simp
    moreover have "n < 2 * 2 ^ nat (bitlen (n div 2))"
      using ih(2) by simp
    ultimately show ?thesis
      using p q by (simp add: b nat_add_distrib)
  qed
qed

lemma pow2_pos: "0 < pow2 k"
  by (simp add: pow2_def)

lemma pow2_nonpos: "k \<le> 0 \<Longrightarrow> pow2 k = 1 / 2 ^ nat (- k)"
  by (cases "k = 0") (simp_all add: pow2_def)

lemma round_half_even_of_int: "round_half_even (of_int n) = n"
  by (simp add: round_half_even_def)

lemma to_double_exact:
  assumes "r \<noteq> 0" and "ilog2 \<bar>r\<bar> = e" and "- 1022 \<le> e" and "e < 1023"
    and "\<bar>r\<bar> / pow2 (e - 52) = of_int n"
  shows "to_double r = Fin r"
proof -
  have m: "max (ilog2 \<bar>r\<bar>) (- 1022) = e"
    using assms(2,3) by simp
  have v: "of_int n * pow2 (e - 52) = \<bar>r\<bar>"
    using assms(5) pow2_pos [of "e - 52"] by (simp add: field_simps)
  have s: "(if r < 0 then - \<bar>r\<bar> else \<bar>r\<bar>) = r"
    by simp
  show ?thesis
    unfolding to_double_def Let_def m assms(5) round_half_even_of_int v s
    using assms(1,4) by simp
qed

lemma ilog2_of_int:
  assumes "0 < a"
  shows "ilog2 (of_int a) = bitlen a - 1"
proof -
  have b1: "bitlen 1 = 1"
    by (subst bitlen.simps) (simp add: bitlen.simps [of 0])
  have "(2::int) ^ nat (bitlen a - 1) \<le> a"
    using bitlen_bounds [OF assms] by simp
  then have "(of_int ((2::int) ^ nat (bitlen a - 1)) :: rat) \<le> of_int a"
    by (simp only: of_int_le_iff)
  then have "pow2 (bitlen a - 1) \<le> of_int a"
    using bitlen_pos [OF assms] by (simp add: pow2_def)
  then show ?thesis
    by (simp add: ilog2_def quotient_of_int b1)
qed

lemma to_double_of_small_pos:
  assumes "0 < a" and "a < 2 ^ 53"
  shows "to_double (of_int a) = Fin (of_int a)"
proof -
  define e where "e = bitlen a - 1"
  have e0: "0 \<le> e"
    using bitlen_pos [OF assms(1)] by (simp add: e_def)
  have "(2::int) ^ nat e \<le> a"
    using bitlen_bounds [OF assms(1)] by (simp add: e_def)
  with assms(2) have "(2::int) ^ nat e < 2 ^ 53"
    by simp
  have "nat e < 53"
  proof (rule ccontr)
    assume "\<not> nat e < 53"
    then have "53 \<le> nat e" by simp
    then have "(2::int) ^ 53 \<le> 2 ^ nat e"
      by (rule power_increasing) simp
    with \<open>(2::int) ^ nat e < 2 ^ 53\<close> show False by simp
  qed
  with e0 have e52: "e \<le> 52"
    by simp
  have l: "ilog2 \<bar>of_int a\<bar> = e"
    using assms(1) ilog2_of_int [OF assms(1)] by (simp add: e_def)
  have d: "\<bar>of_int a :: rat\<bar> / pow2 (e - 52) = of_int (a * 2 ^ nat (52 - e))"
    using assms(1) e52 by (simp add: pow2_nonpos)
  show ?thesis
    by (rule to_double_exact [OF _ l _ _ d]) (use assms(1) e0 e52 in simp_all)
qed

lemma to_double_2_53: "to_double (2 ^ 53) = Fin (2 ^ 53)"
  by code_simp

lemma to_double_of_pos:
  assumes "0 < a" and "a \<le> 2 ^ 53"
  shows "to_double (of_int a) = Fin (of_int a)"
proof (cases "a = 2 ^ 53")
  case True
  then show ?thesis
    using to_double_2_53 by simp
next
  case False
  with assms(2) have "a < 2 ^ 53" by simp
  with assms(1) show ?thesis by (rule to_double_of_small_pos)
qed

lemma to_double_minus: "to_double (- r) = neg (to_double r)"
proof -
  consider "r = 0" | "0 < r" | "r < 0" by arith
  then show ?thesis
  proof cases
    case 1
    then show ?thesis by (simp add: to_double_def neg_def)
  next
    case 2
    then have "\<bar>- r\<bar> = r" "\<bar>r\<bar> = r" "\<not> r < 0" "- r < 0" "r \<noteq> 0"
      by simp_all
    then show ?thesis
      unfolding to_double_def Let_def by (auto simp: neg_def)
  next
    case 3
    then have "\<bar>- r\<bar> = - r" "\<bar>r\<bar> = - r" "r < 0" "\<not> - r < 0" "r \<noteq> 0"
      by simp_all
    then show ?thesis
      unfolding to_double_def Let_def by (auto simp: neg_def)
  qed
qed

lemma to_double_of_int:
  assumes "\<bar>i\<bar> \<le> 2 ^ 53"
  shows "to_double (of_int i) = Fin (of_int i)"
proof -
  consider "i = 0" | "0 < i" | "i < 0" by arith
  then show ?thesis
  proof cases
    case 1
    then show ?thesis by (simp add: to_double_def)
  next
    case 2
    with assms show ?thesis by (simp add: to_double_of_pos)
  next
    case 3
    with assms have "to_double (of_int (- i)) = Fin (of_int (- i))"
      by (intro to_double_of_pos) simp_all
    then have "to_double (- of_int i) = Fin (- of_int i)"
      by simp
    then show ?thesis
      by (simp add: to_double_minus neg_def split: jsnum.splits)
  qed
qed

subsection \<open>The sum stays finite\<close>

text \<open>
  The largest double is \<open>2 ^ 1024 - 2 ^ 971\<close>, and a rational below \<open>2 ^ 1024 - 2 ^ 970\<close>, half
  a step further, still rounds to a finite double. So adding 5 to a finite number never
  gives an infinity.
\<close>

lemma pow2_powi: "pow2 k = 2 powi k"
  by (simp add: pow2_def power_int_def power_one_over inverse_eq_divide)

lemma pow2_add: "pow2 (a + b) = pow2 a * pow2 b"
  by (simp add: pow2_powi power_int_add)

lemma pow2_mono: "a \<le> b \<Longrightarrow> pow2 a \<le> pow2 b"
  by (simp add: pow2_powi power_int_increasing)

lemma pow2_less_imp: "pow2 a < pow2 b \<Longrightarrow> a < b"
  using pow2_mono [of b a] by (cases "a < b") simp_all

lemma bitlen_rat_bounds:
  assumes "0 < a"
  shows "pow2 (bitlen a - 1) \<le> of_int a" and "of_int a < pow2 (bitlen a)"
proof -
  have p: "1 \<le> bitlen a"
    using assms by (rule bitlen_pos)
  have "(of_int ((2::int) ^ nat (bitlen a - 1)) :: rat) \<le> of_int a"
    using bitlen_bounds [OF assms] by (simp only: of_int_le_iff)
  then show "pow2 (bitlen a - 1) \<le> of_int a"
    using p by (simp add: pow2_def)
  have "(of_int a :: rat) < of_int ((2::int) ^ nat (bitlen a))"
    using bitlen_bounds [OF assms] by (simp only: of_int_less_iff)
  then show "of_int a < pow2 (bitlen a)"
    using p by (simp add: pow2_def)
qed

lemma ilog2_bounds:
  assumes "0 < r"
  shows "pow2 (ilog2 r) \<le> r \<and> r < pow2 (ilog2 r + 1)"
proof -
  obtain a b where q: "quotient_of r = (a, b)"
    by (cases "quotient_of r") auto
  then have b: "0 < b" and r: "r = of_int a / of_int b"
    by (simp_all add: quotient_of_denom_pos quotient_of_div)
  with assms have a: "0 < a"
    by (simp add: zero_less_divide_iff)
  define k where "k = bitlen a - bitlen b"
  have b': "(0::rat) < of_int b"
    using b by simp
  have up: "r < pow2 (k + 1)"
  proof -
    have "of_int a < pow2 (bitlen a)"
      using bitlen_rat_bounds [OF a] by simp
    also have "pow2 (bitlen a) = pow2 (k + 1) * pow2 (bitlen b - 1)"
      by (simp add: k_def pow2_add [symmetric])
    also have "\<dots> \<le> pow2 (k + 1) * of_int b"
      using bitlen_rat_bounds (1) [OF b] pow2_pos [of "k + 1"]
      by (intro mult_left_mono) simp_all
    finally show ?thesis
      using b' by (simp add: r pos_divide_less_eq)
  qed
  have lo: "pow2 (k - 1) \<le> r"
  proof -
    have "pow2 (k - 1) * of_int b \<le> pow2 (k - 1) * pow2 (bitlen b)"
      using bitlen_rat_bounds (2) [OF b] pow2_pos [of "k - 1"]
      by (intro mult_left_mono) simp_all
    also have "\<dots> = pow2 (bitlen a - 1)"
      by (simp add: k_def pow2_add [symmetric])
    also have "\<dots> \<le> of_int a"
      using bitlen_rat_bounds [OF a] by simp
    finally show ?thesis
      using b' by (simp add: r pos_le_divide_eq)
  qed
  show ?thesis
  proof (cases "pow2 k \<le> r")
    case True
    then have "ilog2 r = k"
      by (simp add: ilog2_def q k_def)
    with True up show ?thesis by simp
  next
    case False
    then have "ilog2 r = k - 1"
      by (simp add: ilog2_def q k_def)
    with False lo show ?thesis by simp
  qed
qed

lemma round_half_even_le:
  assumes "x \<le> of_int N"
  shows "round_half_even x \<le> N"
proof -
  have f: "\<lfloor>x\<rfloor> \<le> N"
    using assms by (simp add: floor_le_iff)
  show ?thesis
  proof (cases "\<lfloor>x\<rfloor> = N")
    case True
    with assms have "x - of_int \<lfloor>x\<rfloor> \<le> 0"
      by simp
    then show ?thesis
      using True by (simp add: round_half_even_def Let_def)
  next
    case False
    with f have "\<lfloor>x\<rfloor> + 1 \<le> N" by simp
    then show ?thesis
      using f by (simp add: round_half_even_def Let_def)
  qed
qed

lemma round_half_even_less:
  assumes "x < of_int N - 1 / 2"
  shows "round_half_even x < N"
proof -
  have "x < of_int N"
    using assms by simp
  then have f: "\<lfloor>x\<rfloor> < N"
    by (simp add: floor_less_iff)
  show ?thesis
  proof (cases "\<lfloor>x\<rfloor> = N - 1")
    case True
    with assms have "x - of_int \<lfloor>x\<rfloor> < 1 / 2"
      by simp
    then show ?thesis
      using True by (simp add: round_half_even_def Let_def)
  next
    case False
    with f have "\<lfloor>x\<rfloor> + 1 < N" by simp
    then show ?thesis
      using f by (simp add: round_half_even_def Let_def)
  qed
qed

lemma round_half_even_nonneg: "0 \<le> x \<Longrightarrow> 0 \<le> round_half_even x"
  by (simp add: round_half_even_def Let_def)

lemma to_double_unfold:
  assumes "r \<noteq> 0"
  shows "to_double r =
    (if 1024 \<le> max (ilog2 \<bar>r\<bar>) (- 1022)
        \<or> (max (ilog2 \<bar>r\<bar>) (- 1022) = 1023
            \<and> 2 ^ 53 \<le> round_half_even (\<bar>r\<bar> / pow2 (max (ilog2 \<bar>r\<bar>) (- 1022) - 52)))
     then (if r < 0 then NegInf else PosInf)
     else Fin (if r < 0
               then - (of_int (round_half_even (\<bar>r\<bar> / pow2 (max (ilog2 \<bar>r\<bar>) (- 1022) - 52)))
                       * pow2 (max (ilog2 \<bar>r\<bar>) (- 1022) - 52))
               else of_int (round_half_even (\<bar>r\<bar> / pow2 (max (ilog2 \<bar>r\<bar>) (- 1022) - 52)))
                       * pow2 (max (ilog2 \<bar>r\<bar>) (- 1022) - 52)))"
  unfolding to_double_def Let_def using assms by (simp only: if_False)

lemma to_double_finite:
  assumes "\<bar>r\<bar> < 2 ^ 1024 - 2 ^ 970"
  shows "\<exists>v. to_double r = Fin v"
proof (cases "r = 0")
  case True
  then show ?thesis by (simp add: to_double_def)
next
  case False
  define e where "e = max (ilog2 \<bar>r\<bar>) (- 1022)"
  define m where "m = round_half_even (\<bar>r\<bar> / pow2 (e - 52))"
  have A: "0 < \<bar>r\<bar>"
    using False by simp
  have "pow2 (ilog2 \<bar>r\<bar>) \<le> \<bar>r\<bar>"
    using ilog2_bounds [OF A] by simp
  also have "\<bar>r\<bar> < 2 ^ 1024"
    using assms by simp
  also have "(2::rat) ^ 1024 = pow2 1024"
    by (simp add: pow2_def)
  finally have "ilog2 \<bar>r\<bar> < 1024"
    by (rule pow2_less_imp)
  then have e: "e \<le> 1023"
    by (simp add: e_def)
  have n: "m < 2 ^ 53" if "e = 1023"
  proof -
    have "\<bar>r\<bar> / pow2 971 < of_int (2 ^ 53) - 1 / 2"
      using assms by (simp add: pow2_def pos_divide_less_eq)
    then have "round_half_even (\<bar>r\<bar> / pow2 971) < 2 ^ 53"
      by (rule round_half_even_less)
    with that show ?thesis
      by (simp add: m_def)
  qed
  have "\<not> (1024 \<le> e \<or> (e = 1023 \<and> 2 ^ 53 \<le> m))"
    using e n by auto
  then show ?thesis
    unfolding to_double_unfold [OF False] e_def [symmetric] m_def [symmetric]
    by simp
qed

lemma to_double_range:
  assumes "to_double r = Fin v"
  shows "\<bar>v\<bar> \<le> 2 ^ 1024 - 2 ^ 971"
proof (cases "r = 0")
  case True
  with assms show ?thesis by (simp add: to_double_def)
next
  case False
  define e where "e = max (ilog2 \<bar>r\<bar>) (- 1022)"
  define m where "m = round_half_even (\<bar>r\<bar> / pow2 (e - 52))"
  have A: "0 < \<bar>r\<bar>"
    using False by simp
  have u: "to_double r =
    (if 1024 \<le> e \<or> (e = 1023 \<and> 2 ^ 53 \<le> m)
     then (if r < 0 then NegInf else PosInf)
     else Fin (if r < 0 then - (of_int m * pow2 (e - 52)) else of_int m * pow2 (e - 52)))"
    unfolding to_double_unfold [OF False] e_def [symmetric] m_def [symmetric] ..
  from assms u have c: "\<not> (1024 \<le> e \<or> (e = 1023 \<and> 2 ^ 53 \<le> m))"
    by (auto split: if_splits)
  with assms u have v: "\<bar>v\<bar> = \<bar>of_int m * pow2 (e - 52)\<bar>"
    by (auto split: if_splits)
  have m0: "0 \<le> m"
    unfolding m_def using pow2_pos [of "e - 52"] by (intro round_half_even_nonneg) simp
  have "\<bar>r\<bar> < pow2 (ilog2 \<bar>r\<bar> + 1)"
    using ilog2_bounds [OF A] by simp
  also have "\<dots> \<le> pow2 (e + 1)"
    by (intro pow2_mono) (simp add: e_def)
  also have "e + 1 = 53 + (e - 52)"
    by simp
  also have "pow2 (53 + (e - 52)) = pow2 53 * pow2 (e - 52)"
    by (rule pow2_add)
  finally have "\<bar>r\<bar> / pow2 (e - 52) < pow2 53"
    using pow2_pos [of "e - 52"] by (simp add: pos_divide_less_eq)
  then have "\<bar>r\<bar> / pow2 (e - 52) \<le> of_int (2 ^ 53)"
    by (simp add: pow2_def)
  then have m53: "m \<le> 2 ^ 53"
    unfolding m_def by (rule round_half_even_le)
  have "of_int m * pow2 (e - 52) \<le> 2 ^ 1024 - 2 ^ 971"
  proof (cases "e = 1023")
    case True
    with c have "m \<le> 2 ^ 53 - 1"
      by simp
    then have "(of_int m :: rat) \<le> of_int (2 ^ 53 - 1)"
      by (simp only: of_int_le_iff)
    then have "of_int m * pow2 971 \<le> of_int (2 ^ 53 - 1) * pow2 971"
      using pow2_pos [of 971] by (intro mult_right_mono) simp_all
    with True show ?thesis
      by (simp add: pow2_def)
  next
    case False
    with c have "e - 52 \<le> 970"
      by simp
    then have "pow2 (e - 52) \<le> pow2 970"
      by (rule pow2_mono)
    moreover have "(of_int m :: rat) \<le> of_int (2 ^ 53)"
      using m53 by (simp only: of_int_le_iff)
    ultimately have "of_int m * pow2 (e - 52) \<le> of_int (2 ^ 53) * pow2 970"
      using m0 pow2_pos [of "e - 52"] by (intro mult_mono) simp_all
    then show ?thesis
      by (simp add: pow2_def)
  qed
  moreover have "0 \<le> of_int m * pow2 (e - 52)"
    using m0 pow2_pos [of "e - 52"] by simp
  ultimately show ?thesis
    by (simp add: v)
qed

lemma Number_range:
  assumes "Number val = Fin p"
  shows "\<bar>p\<bar> \<le> 2 ^ 1024 - 2 ^ 971"
proof -
  have mv: "\<bar>v\<bar> \<le> 2 ^ 1024 - 2 ^ 971" if "of_mv x = Fin v" for x v
    using that to_double_range by (cases x) (auto simp: of_mv_def)
  have ul: "\<bar>v\<bar> \<le> 2 ^ 1024 - 2 ^ 971" if "unsigned_literal s = Fin v" for s v
    using that mv by (auto simp: unsigned_literal_def split: if_splits)
  have ng: "\<bar>v\<bar> \<le> 2 ^ 1024 - 2 ^ 971" if "neg (unsigned_literal s) = Fin v" for s v
  proof -
    from that obtain w where "unsigned_literal s = Fin w" "v = - w"
      by (cases "unsigned_literal s") (auto simp: neg_def)
    with ul [of s w] show ?thesis by simp
  qed
  from assms show ?thesis
    using mv ul ng
    by (auto simp: Number_def Let_def split: if_splits option.splits)
qed

lemma to_double_le_2_53:
  assumes "\<bar>r\<bar> \<le> 2 ^ 53" and "to_double r = Fin v"
  shows "\<bar>v\<bar> \<le> 2 ^ 53"
proof -
  consider "r = 0" | "\<bar>r\<bar> = 2 ^ 53" | "r \<noteq> 0" "\<bar>r\<bar> < 2 ^ 53"
    using assms(1) by fastforce
  then show ?thesis
  proof cases
    case 1
    with assms(2) show ?thesis by (simp add: to_double_def)
  next
    case 2
    then have "r = of_int (2 ^ 53) \<or> r = of_int (- (2 ^ 53))"
      by (auto simp: abs_if split: if_splits)
    then obtain i :: int where i: "r = of_int i" "\<bar>i\<bar> \<le> 2 ^ 53"
      by fastforce
    from to_double_of_int [OF i(2)] assms(2) have "v = r"
      by (simp add: i(1))
    with assms(1) show ?thesis by simp
  next
    case 3
    define e where "e = max (ilog2 \<bar>r\<bar>) (- 1022)"
    define m where "m = round_half_even (\<bar>r\<bar> / pow2 (e - 52))"
    have A: "0 < \<bar>r\<bar>"
      using 3(1) by simp
    have u: "to_double r =
      (if 1024 \<le> e \<or> (e = 1023 \<and> 2 ^ 53 \<le> m)
       then (if r < 0 then NegInf else PosInf)
       else Fin (if r < 0 then - (of_int m * pow2 (e - 52)) else of_int m * pow2 (e - 52)))"
      unfolding to_double_unfold [OF 3(1)] e_def [symmetric] m_def [symmetric] ..
    from assms(2) u have v: "\<bar>v\<bar> = \<bar>of_int m * pow2 (e - 52)\<bar>"
      by (auto split: if_splits)
    have m0: "0 \<le> m"
      unfolding m_def using pow2_pos [of "e - 52"] by (intro round_half_even_nonneg) simp
    have "\<bar>r\<bar> < pow2 (ilog2 \<bar>r\<bar> + 1)"
      using ilog2_bounds [OF A] by simp
    also have "\<dots> \<le> pow2 (e + 1)"
      by (intro pow2_mono) (simp add: e_def)
    also have "e + 1 = 53 + (e - 52)"
      by simp
    also have "pow2 (53 + (e - 52)) = pow2 53 * pow2 (e - 52)"
      by (rule pow2_add)
    finally have "\<bar>r\<bar> / pow2 (e - 52) < pow2 53"
      using pow2_pos [of "e - 52"] by (simp add: pos_divide_less_eq)
    then have "\<bar>r\<bar> / pow2 (e - 52) \<le> of_int (2 ^ 53)"
      by (simp add: pow2_def)
    then have "m \<le> 2 ^ 53"
      unfolding m_def by (rule round_half_even_le)
    then have m53: "(of_int m :: rat) \<le> of_int (2 ^ 53)"
      by (simp only: of_int_le_iff)
    have "pow2 (ilog2 \<bar>r\<bar>) \<le> \<bar>r\<bar>"
      using ilog2_bounds [OF A] by simp
    also have "\<bar>r\<bar> < pow2 53"
      using 3(2) by (simp add: pow2_def)
    finally have "ilog2 \<bar>r\<bar> < 53"
      by (rule pow2_less_imp)
    then have "e - 52 \<le> 0"
      by (simp add: e_def)
    then have "pow2 (e - 52) \<le> pow2 0"
      by (rule pow2_mono)
    with m53 have "of_int m * pow2 (e - 52) \<le> of_int (2 ^ 53) * pow2 0"
      using m0 pow2_pos [of "e - 52"] by (intro mult_mono) simp_all
    moreover have "0 \<le> of_int m * pow2 (e - 52)"
      using m0 pow2_pos [of "e - 52"] by simp
    ultimately show ?thesis
      by (simp add: v pow2_def)
  qed
qed

lemma high_is_finite:
  assumes "Number val = Fin p"
  shows "\<exists>h. to_double (p + 5) = Fin h"
proof -
  have "\<bar>p + 5\<bar> \<le> \<bar>p\<bar> + 5"
    by simp
  also have "\<dots> \<le> 2 ^ 1024 - 2 ^ 971 + 5"
    using Number_range [OF assms] by simp
  also have "\<dots> < (2 ^ 1024 - 2 ^ 970 :: rat)"
    by simp
  finally show ?thesis
    by (rule to_double_finite)
qed

subsection \<open>The digits of the two sides\<close>

lemma digit_char_mod: "digit_char (n mod 10) = digit_char n"
  by (simp add: digit_char_def)

lemma digit_char_0: "digit_char 0 = CHR ''0''"
  by (simp add: digit_char_def)

lemma show_digits_small: "n < 10 \<Longrightarrow> show_digits n = [digit_char n]"
  by (subst show_digits.simps) simp

lemma show_digits_step:
  "10 \<le> n \<Longrightarrow> show_digits n = show_digits (n div 10) @ [digit_char n]"
  by (subst show_digits.simps) (simp add: digit_char_mod)

lemma show_digits_nonempty: "show_digits n \<noteq> []"
  by (subst show_digits.simps) simp

lemma fixed_point_split:
  assumes "0 \<le> n"
  shows "(let m = show_digits n;
              m' = (if length m \<le> 2 then replicate (3 - length m) CHR ''0'' @ m else m);
              k = length m'
          in take (k - 2) m' @ ''.'' @ drop (k - 2) m')
         = show_digits (n div 100) @ ''.'' @ [digit_char (n div 10), digit_char n]"
proof -
  consider "n < 10" | "10 \<le> n" "n < 100" | "100 \<le> n" by arith
  then show ?thesis
  proof cases
    case 1
    with assms have "n div 100 = 0" "n div 10 = 0" by simp_all
    with 1 show ?thesis
      by (simp add: show_digits_small digit_char_0 numeral_3_eq_3)
  next
    case 2
    then have "n div 100 = 0" "n div 10 < 10" by simp_all
    with 2 show ?thesis
      by (simp add: show_digits_step [of n] show_digits_small digit_char_0)
  next
    case 3
    then have a: "10 \<le> n" "10 \<le> n div 10" by simp_all
    have d: "n div 10 div 10 = n div 100"
      by (simp add: div_mult2_eq [symmetric])
    show ?thesis
      by (simp add: show_digits_step [OF a(1)] show_digits_step [OF a(2)] d Let_def
          show_digits_nonempty)
  qed
qed

lemma toFixed2_shape:
  assumes "\<bar>x\<bar> < 10 ^ 21"
  shows "toFixed2 x =
           (if x < 0 then ''-'' else [])
           @ show_digits (\<lfloor>\<bar>x\<bar> * 100 + 1 / 2\<rfloor> div 100) @ ''.''
           @ [digit_char (\<lfloor>\<bar>x\<bar> * 100 + 1 / 2\<rfloor> div 10), digit_char \<lfloor>\<bar>x\<bar> * 100 + 1 / 2\<rfloor>]"
proof -
  have "0 \<le> \<lfloor>\<bar>x\<bar> * 100 + 1 / 2\<rfloor>"
    by simp
  from fixed_point_split [OF this] assms show ?thesis
    unfolding toFixed2_def Let_def by simp
qed

lemma format_of_int:
  assumes "\<bar>i\<bar> \<le> 2 ^ 53"
  shows "format (Fin (of_int i)) = show_int i"
proof -
  from assms have "i \<le> 2 ^ 53" "- i \<le> 2 ^ 53"
    by simp_all
  then show ?thesis
    by (simp add: format_def isInteger_def js_String_def string_of_pos_def show_int_def)
qed

lemma format_spec_side:
  assumes "\<bar>n\<bar> \<le> 2 ^ 53"
  shows "format (Fin n) = spec_side n"
proof (cases "n = of_int \<lfloor>n\<rfloor>")
  case True
  then obtain i where i: "n = of_int i" ..
  from assms have "(of_int \<bar>i\<bar> :: rat) \<le> of_int (2 ^ 53)"
    by (simp add: i)
  then have "\<bar>i\<bar> \<le> 2 ^ 53"
    by (simp only: of_int_le_iff)
  then have "format (Fin (of_int i)) = show_int i"
    by (rule format_of_int)
  then show ?thesis
    by (simp add: i spec_side_def)
next
  case False
  then show ?thesis
    by (simp add: format_def isInteger_def spec_side_def)
qed

lemma getRangeText_Fin:
  "Number val = Fin p \<Longrightarrow>
   getRangeText val = Some (format (Fin p) @ '' - '' @ format (to_double (p + 5)))"
  by (simp add: getRangeText_def isFinite_def)

lemma getRangeText_spec:
  assumes "Number val = Fin p" and "to_double (p + 5) = Fin (p + 5)"
    and "\<bar>p\<bar> \<le> 2 ^ 53" and "\<bar>p + 5\<bar> \<le> 2 ^ 53"
  shows "getRangeText val = Some (spec_range p)"
  using getRangeText_Fin [OF assms(1)] format_spec_side [OF assms(3)]
    format_spec_side [OF assms(4)]
  by (simp add: assms(2) spec_range_def)

lemma getRangeText_sides:
  assumes "Number val = Fin p" and "to_double (p + 5) = Fin h"
    and "\<bar>p\<bar> \<le> 2 ^ 53" and "\<bar>h\<bar> \<le> 2 ^ 53"
  shows "getRangeText val = Some (spec_side p @ '' - '' @ spec_side h)"
  using getRangeText_Fin [OF assms(1)] format_spec_side [OF assms(3)]
    format_spec_side [OF assms(4)]
  by (simp add: assms(2))

lemma spec_side_fraction:
  assumes "r \<noteq> of_int \<lfloor>r\<rfloor>" and "\<bar>r\<bar> < 10 ^ 21"
  shows "spec_side r =
           (if r < 0 then ''-'' else [])
           @ show_digits (\<lfloor>\<bar>r\<bar> * 100 + 1 / 2\<rfloor> div 100) @ ''.''
           @ [digit_char (\<lfloor>\<bar>r\<bar> * 100 + 1 / 2\<rfloor> div 10), digit_char \<lfloor>\<bar>r\<bar> * 100 + 1 / 2\<rfloor>]"
  using assms(1) toFixed2_shape [OF assms(2)]
  by (simp add: spec_side_def)

text \<open>
  Claim C3, as amended. For every input that coerces to a finite number \<open>p\<close>, \<open>getRangeText\<close>
  returns "<low> - <high>" where low renders \<open>p\<close> and high renders \<open>h\<close>, the double nearest to
  \<open>p + 5\<close>, which is finite. Whenever \<open>p\<close> and \<open>h\<close> have a magnitude of at most \<open>2 ^ 53\<close>, which
  holds whenever \<open>p\<close> and \<open>p + 5\<close> have, each of the two sides is rendered in the words of the
  specification: a side without a fractional part is the integer literal of its value, and a
  side with one is fixed to exactly two decimals (sign, integer digits, a point, two digits).
  Where \<open>p + 5\<close> is itself a double, as for every integer \<open>p\<close> in that range, \<open>h\<close> is \<open>p + 5\<close> and
  the result is "p - (p + 5)".
\<close>

theorem range_text_nearest_double:
  "(Number val = Fin p \<longrightarrow>
      (\<exists>h. to_double (p + 5) = Fin h
         \<and> getRangeText val = Some (format (Fin p) @ '' - '' @ format (Fin h))
         \<and> (\<bar>p\<bar> \<le> 2 ^ 53 \<and> \<bar>h\<bar> \<le> 2 ^ 53 \<longrightarrow>
              getRangeText val = Some (spec_side p @ '' - '' @ spec_side h))
         \<and> (\<bar>p + 5\<bar> \<le> 2 ^ 53 \<longrightarrow> \<bar>h\<bar> \<le> 2 ^ 53)))
   \<and> (Number val = Fin p \<and> to_double (p + 5) = Fin (p + 5)
        \<and> \<bar>p\<bar> \<le> 2 ^ 53 \<and> \<bar>p + 5\<bar> \<le> 2 ^ 53 \<longrightarrow>
      getRangeText val = Some (spec_range p))
   \<and> (\<bar>i\<bar> \<le> 2 ^ 53 \<longrightarrow> to_double (of_int i) = Fin (of_int i))
   \<and> spec_side (of_int i) = show_int i
   \<and> (r \<noteq> of_int \<lfloor>r\<rfloor> \<and> \<bar>r\<bar> < 10 ^ 21 \<longrightarrow>
      spec_side r =
        (if r < 0 then ''-'' else [])
        @ show_digits (\<lfloor>\<bar>r\<bar> * 100 + 1 / 2\<rfloor> div 100) @ ''.''
        @ [digit_char (\<lfloor>\<bar>r\<bar> * 100 + 1 / 2\<rfloor> div 10), digit_char \<lfloor>\<bar>r\<bar> * 100 + 1 / 2\<rfloor>])"
proof (intro conjI impI)
  assume n: "Number val = Fin p"
  then obtain h where h: "to_double (p + 5) = Fin h"
    using high_is_finite by blast
  have "getRangeText val = Some (format (Fin p) @ '' - '' @ format (Fin h))"
    using getRangeText_Fin [OF n] by (simp add: h)
  moreover have "getRangeText val = Some (spec_side p @ '' - '' @ spec_side h)"
    if "\<bar>p\<bar> \<le> 2 ^ 53 \<and> \<bar>h\<bar> \<le> 2 ^ 53"
    using that by (intro getRangeText_sides [OF n h]) simp_all
  moreover have "\<bar>h\<bar> \<le> 2 ^ 53" if "\<bar>p + 5\<bar> \<le> 2 ^ 53"
    using that h by (rule to_double_le_2_53)
  ultimately show "\<exists>h. to_double (p + 5) = Fin h
         \<and> getRangeText val = Some (format (Fin p) @ '' - '' @ format (Fin h))
         \<and> (\<bar>p\<bar> \<le> 2 ^ 53 \<and> \<bar>h\<bar> \<le> 2 ^ 53 \<longrightarrow>
              getRangeText val = Some (spec_side p @ '' - '' @ spec_side h))
         \<and> (\<bar>p + 5\<bar> \<le> 2 ^ 53 \<longrightarrow> \<bar>h\<bar> \<le> 2 ^ 53)"
    using h by blast
next
  assume "Number val = Fin p \<and> to_double (p + 5) = Fin (p + 5)
        \<and> \<bar>p\<bar> \<le> 2 ^ 53 \<and> \<bar>p + 5\<bar> \<le> 2 ^ 53"
  then show "getRangeText val = Some (spec_range p)"
    by (intro getRangeText_spec) simp_all
next
  assume "\<bar>i\<bar> \<le> 2 ^ 53"
  then show "to_double (of_int i) = Fin (of_int i)"
    by (rule to_double_of_int)
next
  show "spec_side (of_int i) = show_int i"
    by (simp add: spec_side_def)
next
  assume "r \<noteq> of_int \<lfloor>r\<rfloor> \<and> \<bar>r\<bar> < 10 ^ 21"
  then show "spec_side r =
        (if r < 0 then ''-'' else [])
        @ show_digits (\<lfloor>\<bar>r\<bar> * 100 + 1 / 2\<rfloor> div 100) @ ''.''
        @ [digit_char (\<lfloor>\<bar>r\<bar> * 100 + 1 / 2\<rfloor> div 10), digit_char \<lfloor>\<bar>r\<bar> * 100 + 1 / 2\<rfloor>]"
    by (intro spec_side_fraction) simp_all
qed

lemma Number_160_5: "Number ''160.5'' = Fin (321 / 2)"
  by code_simp

lemma to_double_165_5: "to_double (331 / 2) = Fin (331 / 2)"
  by code_simp

lemma spec_range_160_5: "spec_range (321 / 2) = ''160.50 - 165.50''"
  by code_simp

lemma Number_160: "Number ''160'' = Fin 160"
  by code_simp

lemma spec_range_160: "spec_range 160 = ''160 - 165''"
  by code_simp

lemma fraction_160_5:
  "(321 / 2 :: rat) \<noteq> of_int \<lfloor>321 / 2 :: rat\<rfloor> \<and> \<bar>321 / 2 :: rat\<bar> < 10 ^ 21"
  by code_simp

lemma digits_160_5:
  "(if (321 / 2 :: rat) < 0 then ''-'' else [])
     @ show_digits (\<lfloor>\<bar>321 / 2 :: rat\<bar> * 100 + 1 / 2\<rfloor> div 100) @ ''.''
     @ [digit_char (\<lfloor>\<bar>321 / 2 :: rat\<bar> * 100 + 1 / 2\<rfloor> div 10),
        digit_char \<lfloor>\<bar>321 / 2 :: rat\<bar> * 100 + 1 / 2\<rfloor>]
   = ''160.50''"
  by code_simp

lemma Number_127_3: "Number ''127.3'' = Fin (8957941133816627 / 70368744177664)"
  by code_simp

lemma to_double_132_3:
  "to_double (8957941133816627 / 70368744177664 + 5) = Fin (2327446213676237 / 17592186044416)"
  by code_simp

lemma spec_side_127_3: "spec_side (8957941133816627 / 70368744177664) = ''127.30''"
  by code_simp

lemma spec_side_132_3: "spec_side (2327446213676237 / 17592186044416) = ''132.30''"
  by code_simp

lemma bounds_127_3:
  "\<bar>8957941133816627 / 70368744177664 :: rat\<bar> \<le> 2 ^ 53
   \<and> \<bar>2327446213676237 / 17592186044416 :: rat\<bar> \<le> 2 ^ 53"
  by simp

theorem range_text_nearest_double_witness:
  "getRangeText ''160.5'' = Some ''160.50 - 165.50''
   \<and> getRangeText ''160'' = Some ''160 - 165''
   \<and> spec_side (321 / 2) = ''160.50''
   \<and> getRangeText ''127.3'' = Some ''127.30 - 132.30''"
proof -
  have a: "getRangeText ''160.5'' = Some (spec_range (321 / 2))"
    using range_text_nearest_double
      [of "''160.5''" "321 / 2" 0 "321 / 2", THEN conjunct2, THEN conjunct1]
    by (simp add: Number_160_5 to_double_165_5)
  have "to_double 165 = Fin 165"
    using range_text_nearest_double
      [of "[]" 0 165 "321 / 2", THEN conjunct2, THEN conjunct2, THEN conjunct1]
    by simp
  then have b: "getRangeText ''160'' = Some (spec_range 160)"
    using range_text_nearest_double
      [of "''160''" 160 0 "321 / 2", THEN conjunct2, THEN conjunct1]
    by (simp add: Number_160)
  have c: "spec_side (321 / 2) = ''160.50''"
    using range_text_nearest_double
      [of "[]" 0 0 "321 / 2", THEN conjunct2, THEN conjunct2, THEN conjunct2, THEN conjunct2,
       THEN mp, OF fraction_160_5]
      digits_160_5
    by (rule trans)
  have d: "getRangeText ''127.3'' = Some ''127.30 - 132.30''"
  proof -
    from range_text_nearest_double
        [of "''127.3''" "8957941133816627 / 70368744177664" 0 0,
         THEN conjunct1, THEN mp, OF Number_127_3]
    obtain h where h: "to_double (8957941133816627 / 70368744177664 + 5) = Fin h"
      and s: "\<bar>8957941133816627 / 70368744177664 :: rat\<bar> \<le> 2 ^ 53 \<and> \<bar>h\<bar> \<le> 2 ^ 53 \<longrightarrow>
              getRangeText ''127.3''
                = Some (spec_side (8957941133816627 / 70368744177664) @ '' - '' @ spec_side h)"
      by blast
    from h have "h = 2327446213676237 / 17592186044416"
      by (simp only: to_double_132_3 jsnum.inject)
    with s bounds_127_3 show ?thesis
      by (simp only: spec_side_127_3 spec_side_132_3) simp
  qed
  show ?thesis
    using a b c d by (simp add: spec_range_160_5 spec_range_160)
qed

lemma Number_2_53: "Number ''9007199254740992'' = Fin 9007199254740992"
  by code_simp

lemma range_2_53: "getRangeText ''9007199254740992'' = Some ''9007199254740992 - 9007199254740996''"
  by code_simp

lemma spec_range_2_53: "spec_range 9007199254740992 = ''9007199254740992 - 9007199254740997''"
  by code_simp

lemma Number_1e21: "Number ''1e21'' = Fin 1000000000000000000000"
  by code_simp

lemma range_1e21: "getRangeText ''1e21'' = Some ''1e+21 - 1e+21''"
  by code_simp

lemma spec_range_1e21:
  "spec_range 1000000000000000000000 = ''1000000000000000000000 - 1000000000000000000005''"
  by code_simp

text \<open>
  Claim C3 as first stated, with \<open>high = p + 5\<close> and an integer literal for every side without
  a fractional part, fails where the doubles are sparse: at \<open>2 ^ 53\<close> the sum \<open>p + 5\<close> rounds to
  \<open>p + 4\<close>, and from \<open>10 ^ 21\<close> on an integral side is printed in exponent notation.
\<close>

theorem range_text_counterexample:
  "Number ''9007199254740992'' = Fin 9007199254740992
   \<and> getRangeText ''9007199254740992'' = Some ''9007199254740992 - 9007199254740996''
   \<and> getRangeText ''9007199254740992'' \<noteq> Some (spec_range 9007199254740992)
   \<and> Number ''1e21'' = Fin 1000000000000000000000
   \<and> getRangeText ''1e21'' = Some ''1e+21 - 1e+21''
   \<and> getRangeText ''1e21'' \<noteq> Some (spec_range 1000000000000000000000)"
  by (simp add: Number_2_53 range_2_53 spec_range_2_53 Number_1e21 range_1e21 spec_range_1e21)

section \<open>The validation of the base price\<close>

lemma getRangeText_falsy: "falsy (getRangeText val) \<longleftrightarrow> \<not> isFinite (Number val)"
  by (simp add: getRangeText_def falsy_def Let_def)

lemma fresh_trade_fails_iff:
  "(\<exists>toast. buildPreviewMessage s = Inl toast) \<longleftrightarrow>
     (case action s of
        BUY \<Rightarrow> \<not> isFinite (Number (buyPrice s))
      | SELL \<Rightarrow> \<not> isFinite (Number (sellPrice s))
      | BOTH \<Rightarrow> \<not> isFinite (Number (buyPrice s)) \<or> \<not> isFinite (Number (sellPrice s)))"
  by (cases "action s")
     (simp_all add: buildPreviewMessage_def Let_def getRangeText_falsy)

lemma range_empty: "getRangeText [] = Some ''0 - 5''"
  by code_simp

lemma Number_empty: "Number [] = Fin 0"
  by (simp add: Number_def trim_def)

text \<open>
  Claim C4 says that an empty price field is rejected. The code composes a message instead:
  \<open>Number("")\<close> is 0, so the band of the empty field is "0 - 5", and submitting the form as
  mounted (or after choosing SELL) yields a message "between 0 - 5". By
  \<open>fresh_trade_fails_iff\<close> composition fails exactly when the price does not coerce to a finite
  number, which the empty string does.
\<close>

theorem empty_price_composes:
  \<open>Number [] = Fin 0 \<and> getRangeText [] = Some ''0 - 5''
   \<and> buildPreviewMessage (mounted ''11 Nov'')
       = Inr ''FRESH TRADE\<newline>\<newline>"BUY" 11 Nov "Nifty 24000 CE" between 0 - 5''
   \<and> buildPreviewMessage (run (mounted ''11 Nov'') [SetAction SELL])
       = Inr ''FRESH TRADE\<newline>\<newline>"SELL" 11 Nov "Nifty 24000 CE" between 0 - 5''\<close>
  by (simp add: Number_empty range_empty buildPreviewMessage_def run_def step_def handle_def
      mounted_def falsy_def side_text_def js_String_24000 directionEffect_def)

theorem empty_price_composes_witness:
  \<open>preview (handlePreview (mounted ''11 Nov''))
     = ''FRESH TRADE\<newline>\<newline>"BUY" 11 Nov "Nifty 24000 CE" between 0 - 5''
   \<and> confirmMode (handlePreview (mounted ''11 Nov''))\<close>
  using empty_price_composes
  by (simp add: handlePreview_def)

end
